theory Spec2Isabelle
  imports Complex_Main
begin

section \<open>Python values and errors\<close>

text \<open>
  Python floats are modelled as real numbers (exact arithmetic), Python integers as
  \<open>int\<close>. An exception of the source is a value \<open>Inl e\<close> of the result type.
\<close>

datatype error = ValueError | IndexError | TypeError

text \<open>\<^verbatim>\<open>int(x)\<close> on a float truncates towards zero.\<close>

definition py_int :: "real \<Rightarrow> int" where
  "py_int v = (if 0 \<le> v then \<lfloor>v\<rfloor> else \<lceil>v\<rceil>)"

section \<open>rng.py: class ManualRNG\<close>

record ManualRNG =
  rng_m :: int
  rng_a :: int
  rng_c :: int
  rng_state :: int

text \<open>
  \<^verbatim>\<open>__init__(self, seed=None)\<close>: the second argument is the reading of
  \<^verbatim>\<open>time.time()\<close>, used only when no seed is given.
\<close>

definition ManualRNG_init :: "int option \<Rightarrow> real \<Rightarrow> ManualRNG" where
  "ManualRNG_init seed now =
     \<lparr>rng_m = 2147483647, rng_a = 16807, rng_c = 0,
      rng_state = (case seed of None \<Rightarrow> py_int (now * 1000) mod 2147483647 | Some s \<Rightarrow> s)\<rparr>"

text \<open>
  \<^verbatim>\<open>random(self)\<close>: the returned float and the generator with its new state. The
  modulus is set once, to 2147483647, and never assigned again, so neither \<^verbatim>\<open>%\<close> nor
  \<^verbatim>\<open>/\<close> divides by zero.
\<close>

definition rng_random :: "ManualRNG \<Rightarrow> real \<times> ManualRNG" where
  "rng_random g =
     (let s = (rng_a g * rng_state g + rng_c g) mod rng_m g
      in (real_of_int s / real_of_int (rng_m g), g\<lparr>rng_state := s\<rparr>))"

text \<open>
  The sum and the products of \<^verbatim>\<open>uniform\<close> and \<^verbatim>\<open>randint\<close> are exact here. The
  program rounds them to doubles: for bounds far larger than their difference the sum of
  \<^verbatim>\<open>uniform\<close> can round up to the upper bound, and \<^verbatim>\<open>randint\<close> raises
  OverflowError when \<^verbatim>\<open>b - a + 1\<close> is beyond the range of a double. Neither happens in
  the program's own calls, \<^verbatim>\<open>uniform(0, 1.5)\<close>, \<^verbatim>\<open>uniform(0, 2 * math.pi)\<close> and
  \<^verbatim>\<open>randint(0, 15)\<close>.
\<close>

definition rng_uniform :: "ManualRNG \<Rightarrow> real \<Rightarrow> real \<Rightarrow> real \<times> ManualRNG" where
  "rng_uniform g lo hi = (let (r, g1) = rng_random g in (lo + (hi - lo) * r, g1))"

definition rng_randint :: "ManualRNG \<Rightarrow> int \<Rightarrow> int \<Rightarrow> int \<times> ManualRNG" where
  "rng_randint g lo hi =
     (let (r, g1) = rng_random g in (lo + py_int (r * real_of_int (hi - lo + 1)), g1))"

text \<open>
  \<^verbatim>\<open>normal(self, mean, std)\<close>: \<^verbatim>\<open>math.log\<close> raises ValueError on an argument
  that is not positive, \<^verbatim>\<open>math.sqrt\<close> on a negative one.
\<close>

definition rng_normal :: "ManualRNG \<Rightarrow> real \<Rightarrow> real \<Rightarrow> error + (real \<times> ManualRNG)" where
  "rng_normal g mean std =
     (let (u1, g1) = rng_random g;
          (u2, g2) = rng_random g1
      in if u1 \<le> 0 then Inl ValueError
         else if - 2 * ln u1 < 0 then Inl ValueError
         else Inr (mean + std * (sqrt (- 2 * ln u1) * cos (2 * pi * u2)), g2))"

text \<open>The generator after \<open>n\<close> calls of \<^verbatim>\<open>random\<close>.\<close>

fun rng_draws :: "nat \<Rightarrow> ManualRNG \<Rightarrow> ManualRNG" where
  "rng_draws 0 g = g"
| "rng_draws (Suc n) g = rng_draws n (snd (rng_random g))"

text \<open>The constants every generator built by \<^verbatim>\<open>__init__\<close> carries.\<close>

definition rng_consts :: "ManualRNG \<Rightarrow> bool" where
  "rng_consts g = (rng_m g = 2147483647 \<and> rng_a g = 16807 \<and> rng_c g = 0)"

section \<open>Coordinates and arrays\<close>

text \<open>
  The field operations receive Python numbers: integers (the agents pass
  \<^verbatim>\<open>int_x\<close>, \<^verbatim>\<open>int_y\<close>) or floats.
\<close>

datatype pynum = PyInt int | PyFloat real

fun num_val :: "pynum \<Rightarrow> real" where
  "num_val (PyInt i) = real_of_int i"
| "num_val (PyFloat v) = v"

text \<open>\<^verbatim>\<open>x // 4\<close>: an integer for an integer, a float for a float.\<close>

fun floordiv4 :: "pynum \<Rightarrow> pynum" where
  "floordiv4 (PyInt i) = PyInt (i div 4)"
| "floordiv4 (PyFloat v) = PyFloat (real_of_int \<lfloor>v / 4\<rfloor>)"

text \<open>\<^verbatim>\<open>g + d\<close> for an integer \<open>d\<close>.\<close>

fun num_add_int :: "pynum \<Rightarrow> int \<Rightarrow> pynum" where
  "num_add_int (PyInt i) d = PyInt (i + d)"
| "num_add_int (PyFloat v) d = PyFloat (v + real_of_int d)"

text \<open>\<^verbatim>\<open>min(g, n)\<close> for an integer \<open>n\<close>: the second argument only when it is smaller.\<close>

definition py_min_int :: "pynum \<Rightarrow> int \<Rightarrow> pynum" where
  "py_min_int g n = (if real_of_int n < num_val g then PyInt n else g)"

text \<open>\<^verbatim>\<open>0 <= g < n\<close>\<close>

definition in_range :: "pynum \<Rightarrow> int \<Rightarrow> bool" where
  "in_range g n = (0 \<le> num_val g \<and> num_val g < real_of_int n)"

text \<open>\<^verbatim>\<open>range(lo, hi)\<close> raises TypeError on a float argument.\<close>

fun py_range :: "pynum \<Rightarrow> pynum \<Rightarrow> error + int list" where
  "py_range (PyInt lo) (PyInt hi) = Inr [lo..hi - 1]"
| "py_range (PyFloat v) hi = Inl TypeError"
| "py_range lo (PyFloat v) = Inl TypeError"

text \<open>
  A numpy array of shape \<open>(h, w)\<close> is a function of row and column, read only at
  \<open>0 \<le> row < h\<close>, \<open>0 \<le> column < w\<close>. An index on an axis of size \<open>n\<close> must be
  an integer in \<open>[-n, n)\<close>, a negative one counting from the end; anything else
  raises IndexError.
\<close>

fun np_index :: "int \<Rightarrow> pynum \<Rightarrow> error + int" where
  "np_index n (PyInt i) =
     (if - n \<le> i \<and> i < n then Inr (if i < 0 then i + n else i) else Inl IndexError)"
| "np_index n (PyFloat v) = Inl IndexError"

definition np_get :: "int \<Rightarrow> int \<Rightarrow> (int \<Rightarrow> int \<Rightarrow> 'a) \<Rightarrow> pynum \<Rightarrow> pynum \<Rightarrow> error + 'a" where
  "np_get h w arr gy gx =
     (case np_index h gy of Inl e \<Rightarrow> Inl e
      | Inr r \<Rightarrow> (case np_index w gx of Inl e \<Rightarrow> Inl e | Inr c \<Rightarrow> Inr (arr r c)))"

definition np_set ::
  "int \<Rightarrow> int \<Rightarrow> (int \<Rightarrow> int \<Rightarrow> 'a) \<Rightarrow> pynum \<Rightarrow> pynum \<Rightarrow> 'a \<Rightarrow> error + (int \<Rightarrow> int \<Rightarrow> 'a)" where
  "np_set h w arr gy gx v =
     (case np_index h gy of Inl e \<Rightarrow> Inl e
      | Inr r \<Rightarrow> (case np_index w gx of Inl e \<Rightarrow> Inl e
                 | Inr c \<Rightarrow> Inr (arr(r := (arr r)(c := v)))))"

text \<open>A \<^verbatim>\<open>for\<close> loop whose body may raise.\<close>

fun fold_err :: "('a \<Rightarrow> 's \<Rightarrow> error + 's) \<Rightarrow> 'a list \<Rightarrow> 's \<Rightarrow> error + 's" where
  "fold_err f [] s = Inr s"
| "fold_err f (v # vs) s = (case f v s of Inl e \<Rightarrow> Inl e | Inr s1 \<Rightarrow> fold_err f vs s1)"

section \<open>simulation.py: class Map\<close>

record PMap =
  map_width :: int
  map_height :: int
  max_val :: real
  evaporation_rate :: real
  map_vals :: "int \<Rightarrow> int \<Rightarrow> real"

text \<open>\<^verbatim>\<open>np.zeros\<close> raises ValueError on a negative dimension.\<close>

definition Map_init :: "int \<Rightarrow> int \<Rightarrow> real \<Rightarrow> real \<Rightarrow> error + PMap" where
  "Map_init grid_width grid_height mv rate =
     (if grid_width < 0 \<or> grid_height < 0 then Inl ValueError
      else Inr \<lparr>map_width = grid_width, map_height = grid_height, max_val = mv,
                evaporation_rate = rate, map_vals = (\<lambda>r c. 0)\<rparr>)"

text \<open>
  \<^verbatim>\<open>step(self, dt)\<close> hands the right-hand side \<^verbatim>\<open>dP_dt\<close>, the flattened grid as
  the value at time 0, and the end time \<open>dt\<close> to scipy's \<^verbatim>\<open>ode\<close> integrator, which
  is not part of the repository: the integrator is a parameter of the model.
\<close>

definition dP_dt :: "real \<Rightarrow> real \<Rightarrow> ('i \<Rightarrow> real) \<Rightarrow> ('i \<Rightarrow> real)" where
  "dP_dt k t y = (\<lambda>i. - k * y i)"

type_synonym 'i integrator =
  "(real \<Rightarrow> ('i \<Rightarrow> real) \<Rightarrow> ('i \<Rightarrow> real)) \<Rightarrow> ('i \<Rightarrow> real) \<Rightarrow> real \<Rightarrow> ('i \<Rightarrow> real)"

definition Map_step :: "(int \<times> int) integrator \<Rightarrow> PMap \<Rightarrow> real \<Rightarrow> PMap" where
  "Map_step integrate mp dt =
     (let k = - ln (evaporation_rate mp);
          y0 = (\<lambda>(r, c). map_vals mp r c);
          y = integrate (dP_dt k) y0 dt
      in mp\<lparr>map_vals := (\<lambda>r c. y (r, c))\<rparr>)"

text \<open>
  An integrator is exact on a right-hand side \<open>f\<close> when it returns the value at the end
  time of every trajectory that starts at the initial value and has derivative \<open>f\<close>.
\<close>

definition exact_on :: "'i integrator \<Rightarrow> (real \<Rightarrow> ('i \<Rightarrow> real) \<Rightarrow> ('i \<Rightarrow> real)) \<Rightarrow> bool" where
  "exact_on integrate f =
     (\<forall>Y y0 T. Y 0 = y0 \<and> (\<forall>t i. ((\<lambda>s. Y s i) has_real_derivative f t (Y t) i) (at t))
        \<longrightarrow> integrate f y0 T = Y T)"

text \<open>The closed form \<open>value \<cdot> exp (rate \<cdot> T)\<close>, the rate read off the right-hand side.\<close>

definition closed_form :: "'i integrator" where
  "closed_form f y0 T = (\<lambda>i. y0 i * exp (T * f 0 (\<lambda>j. 1) i))"

definition Map_set_value :: "PMap \<Rightarrow> pynum \<Rightarrow> pynum \<Rightarrow> real \<Rightarrow> error + PMap" where
  "Map_set_value mp x y val =
     (let gx = floordiv4 x; gy = floordiv4 y
      in if in_range gx (map_width mp) \<and> in_range gy (map_height mp)
         then (case np_get (map_height mp) (map_width mp) (map_vals mp) gy gx of
                 Inl e \<Rightarrow> Inl e
               | Inr cur \<Rightarrow>
                   if val > cur
                   then (case np_set (map_height mp) (map_width mp) (map_vals mp) gy gx val of
                           Inl e \<Rightarrow> Inl e
                         | Inr arr \<Rightarrow> Inr (mp\<lparr>map_vals := arr\<rparr>))
                   else Inr mp)
         else Inr mp)"

definition Map_get_value :: "PMap \<Rightarrow> pynum \<Rightarrow> pynum \<Rightarrow> error + real" where
  "Map_get_value mp x y =
     (let gx = floordiv4 x; gy = floordiv4 y
      in if in_range gx (map_width mp) \<and> in_range gy (map_height mp)
         then np_get (map_height mp) (map_width mp) (map_vals mp) gy gx
         else Inr (- 1))"

definition directions :: "(int \<times> int) list" where
  "directions = [(- 1, - 1), (0, - 1), (1, - 1), (- 1, 0), (1, 0), (- 1, 1), (0, 1), (1, 1)]"

text \<open>
  One iteration of the loop over the neighbours; the state is the three accumulators
  (\<open>total_v\<close> is the source's \<^verbatim>\<open>total\<close>).
\<close>

definition direction_body ::
  "PMap \<Rightarrow> pynum \<Rightarrow> pynum \<Rightarrow> int \<times> int \<Rightarrow> real \<times> real \<times> real \<Rightarrow> error + (real \<times> real \<times> real)" where
  "direction_body mp gx gy d acc =
     (let (dx, dy) = d; (sum_dx, sum_dy, total_v) = acc;
          nx = num_add_int gx dx; ny = num_add_int gy dy
      in if in_range nx (map_width mp) \<and> in_range ny (map_height mp)
         then (case np_get (map_height mp) (map_width mp) (map_vals mp) ny nx of
                 Inl e \<Rightarrow> Inl e
               | Inr v \<Rightarrow> Inr (sum_dx + real_of_int dx * v, sum_dy + real_of_int dy * v, total_v + v))
         else Inr acc)"

definition Map_get_weighted_direction :: "PMap \<Rightarrow> pynum \<Rightarrow> pynum \<Rightarrow> error + (real \<times> real)" where
  "Map_get_weighted_direction mp x y =
     (let gx = floordiv4 x; gy = floordiv4 y
      in case fold_err (direction_body mp gx gy) directions (0, 0, 0) of
           Inl e \<Rightarrow> Inl e
         | Inr (sum_dx, sum_dy, total_v) \<Rightarrow>
             if total_v > 0 then Inr (sum_dx / total_v, sum_dy / total_v) else Inr (0, 0))"

section \<open>simulation.py: class Food\<close>

record Food =
  food_width :: int
  food_height :: int
  food_vals :: "int \<Rightarrow> int \<Rightarrow> bool"

definition Food_init :: "int \<Rightarrow> int \<Rightarrow> error + Food" where
  "Food_init grid_width grid_height =
     (if grid_width < 0 \<or> grid_height < 0 then Inl ValueError
      else Inr \<lparr>food_width = grid_width, food_height = grid_height, food_vals = (\<lambda>r c. False)\<rparr>)"

text \<open>The inner loop of \<^verbatim>\<open>add_food\<close>: row \<open>i\<close>, columns \<open>gx\<close> to \<open>min(gx + 5, width)\<close>.\<close>

definition add_food_row :: "pynum \<Rightarrow> int \<Rightarrow> Food \<Rightarrow> error + Food" where
  "add_food_row gx i fd =
     (case py_range gx (py_min_int (num_add_int gx 5) (food_width fd)) of
        Inl e \<Rightarrow> Inl e
      | Inr cols \<Rightarrow>
          fold_err (\<lambda>j f. case np_set (food_height f) (food_width f) (food_vals f)
                                  (PyInt i) (PyInt j) True of
                            Inl e \<Rightarrow> Inl e
                          | Inr arr \<Rightarrow> Inr (f\<lparr>food_vals := arr\<rparr>)) cols fd)"

definition Food_add_food :: "Food \<Rightarrow> pynum \<Rightarrow> pynum \<Rightarrow> error + Food" where
  "Food_add_food fd x y =
     (let gx = floordiv4 x; gy = floordiv4 y
      in case py_range gy (py_min_int (num_add_int gy 5) (food_height fd)) of
           Inl e \<Rightarrow> Inl e
         | Inr rows \<Rightarrow> fold_err (add_food_row gx) rows fd)"

definition Food_bite :: "Food \<Rightarrow> pynum \<Rightarrow> pynum \<Rightarrow> error + Food" where
  "Food_bite fd x y =
     (let gx = floordiv4 x; gy = floordiv4 y
      in if in_range gx (food_width fd) \<and> in_range gy (food_height fd)
         then (case np_set (food_height fd) (food_width fd) (food_vals fd) gy gx False of
                 Inl e \<Rightarrow> Inl e
               | Inr arr \<Rightarrow> Inr (fd\<lparr>food_vals := arr\<rparr>))
         else Inr fd)"

definition Food_get_value :: "Food \<Rightarrow> pynum \<Rightarrow> pynum \<Rightarrow> error + bool" where
  "Food_get_value fd x y =
     (let gx = floordiv4 x; gy = floordiv4 y
      in if in_range gx (food_width fd) \<and> in_range gy (food_height fd)
         then np_get (food_height fd) (food_width fd) (food_vals fd) gy gx
         else Inr False)"

section \<open>simulation.py: class Ant\<close>

text \<open>
  The two pheromone maps an agent refers to are shared by all agents: the model passes
  them in and returns them updated, with the module's generator \<^verbatim>\<open>rng\<close>.
\<close>

record Ant =
  ant_dx :: real
  ant_dy :: real
  ant_x :: real
  ant_y :: real
  int_x :: int
  int_y :: int
  last_x :: int
  last_y :: int
  has_food :: bool
  home_pher :: real
  food_pher :: real
  use_rate :: real
  wander_chance :: real
  bored :: int

definition Ant_init :: "ManualRNG \<Rightarrow> int \<Rightarrow> int \<Rightarrow> error + (Ant \<times> ManualRNG)" where
  "Ant_init g x y =
     (case rng_normal g 0 1 of
        Inl e \<Rightarrow> Inl e
      | Inr (vx, g1) \<Rightarrow>
          (case rng_normal g1 0 1 of
             Inl e \<Rightarrow> Inl e
           | Inr (vy, g2) \<Rightarrow>
               Inr (\<lparr>ant_dx = vx, ant_dy = vy, ant_x = real_of_int x, ant_y = real_of_int y,
                     int_x = x, int_y = y, last_x = x, last_y = y, has_food = False,
                     home_pher = 100, food_pher = 100, use_rate = 995 / 1000,
                     wander_chance = 92 / 100, bored = 0\<rparr>, g2)))"

text \<open>
  \<^verbatim>\<open>step\<close>, first part: the Gaussian nudges of the two velocity components and the
  idle burst, one definition for each of the three \<^verbatim>\<open>if\<close> statements.
\<close>

definition nudge_dx :: "ManualRNG \<Rightarrow> Ant \<Rightarrow> real \<Rightarrow> error + (Ant \<times> ManualRNG)" where
  "nudge_dx g ant dt =
     (let (r, g1) = rng_random g
      in if r > wander_chance ant
         then (case rng_normal g1 0 1 of
                 Inl e \<Rightarrow> Inl e
               | Inr (z, g2) \<Rightarrow> Inr (ant\<lparr>ant_dx := ant_dx ant + z * dt\<rparr>, g2))
         else Inr (ant, g1))"

definition nudge_dy :: "ManualRNG \<Rightarrow> Ant \<Rightarrow> real \<Rightarrow> error + (Ant \<times> ManualRNG)" where
  "nudge_dy g ant dt =
     (let (r, g1) = rng_random g
      in if r > wander_chance ant
         then (case rng_normal g1 0 1 of
                 Inl e \<Rightarrow> Inl e
               | Inr (z, g2) \<Rightarrow> Inr (ant\<lparr>ant_dy := ant_dy ant + z * dt\<rparr>, g2))
         else Inr (ant, g1))"

definition idle_burst :: "ManualRNG \<Rightarrow> Ant \<Rightarrow> Ant \<times> ManualRNG" where
  "idle_burst g ant =
     (let (r, g1) = rng_random g
      in if r > 99 / 100
         then (let (k, g2) = rng_randint g1 0 15 in (ant\<lparr>bored := bored ant + k\<rparr>, g2))
         else (ant, g1))"

definition step_wander :: "ManualRNG \<Rightarrow> Ant \<Rightarrow> real \<Rightarrow> error + (Ant \<times> ManualRNG)" where
  "step_wander g ant dt =
     (case nudge_dx g ant dt of
        Inl e \<Rightarrow> Inl e
      | Inr (a1, g1) \<Rightarrow>
          (case nudge_dy g1 a1 dt of
             Inl e \<Rightarrow> Inl e
           | Inr (a2, g2) \<Rightarrow> Inr (idle_burst g2 a2)))"

text \<open>The steering along the weighted direction of one map, the same in both branches.\<close>

definition steer_by :: "ManualRNG \<Rightarrow> Ant \<Rightarrow> PMap \<Rightarrow> real \<Rightarrow> error + (Ant \<times> ManualRNG)" where
  "steer_by g ant mp dt =
     (case Map_get_weighted_direction mp (PyInt (int_x ant)) (PyInt (int_y ant)) of
        Inl e \<Rightarrow> Inl e
      | Inr (d0, d1) \<Rightarrow>
          (let (u1, g1) = rng_uniform g 0 (3 / 2);
               a1 = ant\<lparr>ant_dx := ant_dx ant + d0 * u1 * dt\<rparr>;
               (u2, g2) = rng_uniform g1 0 (3 / 2);
               a2 = a1\<lparr>ant_dy := ant_dy a1 + d1 * u2 * dt\<rparr>
           in Inr (a2, g2)))"

text \<open>\<^verbatim>\<open>step\<close>, second part: idle, or steered by the map of the carrying state.\<close>

definition step_steer ::
  "ManualRNG \<Rightarrow> Ant \<Rightarrow> PMap \<Rightarrow> PMap \<Rightarrow> real \<Rightarrow> error + (Ant \<times> ManualRNG)" where
  "step_steer g ant home_map food_map dt =
     (if bored ant > 0 then Inr (ant\<lparr>bored := bored ant - 1\<rparr>, g)
      else if has_food ant then steer_by g ant home_map dt
      else steer_by g ant food_map dt)"

text \<open>
  \<^verbatim>\<open>step\<close>, third part: the boundary conditions, the clamp of the velocity, and the
  position update.
\<close>

definition step_boundary :: "Ant \<Rightarrow> Ant" where
  "step_boundary ant =
     (let a1 = (if ant_x ant < 2 then ant\<lparr>ant_dx := 1\<rparr> else ant);
          a2 = (if ant_x a1 > 600 - 2 then a1\<lparr>ant_dx := - 1\<rparr> else a1);
          a3 = (if ant_y a2 < 2 then a2\<lparr>ant_dy := 1\<rparr> else a2)
      in if ant_y a3 > 400 - 2 then a3\<lparr>ant_dy := - 1\<rparr> else a3)"

definition step_clamp :: "Ant \<Rightarrow> Ant" where
  "step_clamp ant =
     (let a1 = ant\<lparr>ant_dx := max (min (ant_dx ant) 1) (- 1)\<rparr>
      in a1\<lparr>ant_dy := max (min (ant_dy a1) 1) (- 1)\<rparr>)"

definition step_position :: "Ant \<Rightarrow> real \<Rightarrow> Ant" where
  "step_position ant dt =
     (let a1 = ant\<lparr>ant_x := ant_x ant + ant_dx ant * dt\<rparr>;
          a2 = a1\<lparr>ant_y := ant_y a1 + ant_dy a1 * dt\<rparr>;
          a3 = a2\<lparr>int_x := py_int (ant_x a2)\<rparr>
      in a3\<lparr>int_y := py_int (ant_y a3)\<rparr>)"

definition step_move :: "Ant \<Rightarrow> real \<Rightarrow> Ant" where
  "step_move ant dt = step_position (step_clamp (step_boundary ant)) dt"

text \<open>
  \<^verbatim>\<open>step\<close>, last part: the deposit. The result is the agent, the home map and the
  food map.
\<close>

definition step_deposit :: "Ant \<Rightarrow> PMap \<Rightarrow> PMap \<Rightarrow> error + (Ant \<times> PMap \<times> PMap)" where
  "step_deposit ant home_map food_map =
     (case (if last_x ant \<noteq> int_x ant \<or> last_y ant \<noteq> int_y ant
            then (if has_food ant
                  then (let a1 = ant\<lparr>food_pher := food_pher ant * use_rate ant\<rparr>
                        in case Map_set_value food_map (PyInt (int_x a1)) (PyInt (int_y a1))
                                  (food_pher a1) of
                             Inl e \<Rightarrow> Inl e
                           | Inr fm \<Rightarrow> Inr (a1, home_map, fm))
                  else (let a1 = ant\<lparr>home_pher := home_pher ant * use_rate ant\<rparr>
                        in case Map_set_value home_map (PyInt (int_x a1)) (PyInt (int_y a1))
                                  (home_pher a1) of
                             Inl e \<Rightarrow> Inl e
                           | Inr hm \<Rightarrow> Inr (a1, hm, food_map)))
            else Inr (ant, home_map, food_map)) of
        Inl e \<Rightarrow> Inl e
      | Inr (a2, hm, fm) \<Rightarrow> Inr (a2\<lparr>last_x := int_x a2, last_y := int_y a2\<rparr>, hm, fm))"

definition Ant_step ::
  "ManualRNG \<Rightarrow> Ant \<Rightarrow> PMap \<Rightarrow> PMap \<Rightarrow> real \<Rightarrow> error + (Ant \<times> PMap \<times> PMap \<times> ManualRNG)" where
  "Ant_step g ant home_map food_map dt =
     (case step_wander g ant dt of
        Inl e \<Rightarrow> Inl e
      | Inr (a1, g1) \<Rightarrow>
          (case step_steer g1 a1 home_map food_map dt of
             Inl e \<Rightarrow> Inl e
           | Inr (a2, g2) \<Rightarrow>
               (case step_deposit (step_move a2 dt) home_map food_map of
                  Inl e \<Rightarrow> Inl e
                | Inr (a3, hm, fm) \<Rightarrow> Inr (a3, hm, fm, g2))))"

section \<open>simulation.py: class Colony\<close>

record Colony =
  ants :: "Ant list"
  colony_x :: int
  colony_y :: int
  food_delivered :: int

text \<open>
  The objects of one run: the module's generator, the colony, the two pheromone maps
  every agent refers to, and the food field.
\<close>

record World =
  sim_rng :: ManualRNG
  sim_colony :: Colony
  sim_pher_home :: PMap
  sim_pher_food :: PMap
  sim_food :: Food

fun init_ants :: "nat \<Rightarrow> ManualRNG \<Rightarrow> int \<Rightarrow> int \<Rightarrow> error + (Ant list \<times> ManualRNG)" where
  "init_ants 0 g x y = Inr ([], g)"
| "init_ants (Suc n) g x y =
     (case Ant_init g x y of
        Inl e \<Rightarrow> Inl e
      | Inr (a, g1) \<Rightarrow>
          (case init_ants n g1 x y of
             Inl e \<Rightarrow> Inl e
           | Inr (rest, g2) \<Rightarrow> Inr (a # rest, g2)))"

definition Colony_init :: "ManualRNG \<Rightarrow> int \<Rightarrow> int \<Rightarrow> int \<Rightarrow> error + (Colony \<times> ManualRNG)" where
  "Colony_init g x y count =
     (case init_ants (nat count) g x y of
        Inl e \<Rightarrow> Inl e
      | Inr (as, g1) \<Rightarrow>
          Inr (\<lparr>ants = as, colony_x = x, colony_y = y, food_delivered = 0\<rparr>, g1))"

text \<open>
  The body of the loop of \<^verbatim>\<open>update\<close> after the agent's step: delivery at the
  nest, or pickup from the food field. The integer is \<^verbatim>\<open>food_delivered\<close>.
\<close>

definition nest_or_pickup ::
  "int \<Rightarrow> int \<Rightarrow> Ant \<Rightarrow> Food \<Rightarrow> int \<Rightarrow> error + (Ant \<times> Food \<times> int)" where
  "nest_or_pickup cx cy ant fd n =
     (if has_food ant
      then (if \<bar>int_x ant - cx\<bar> < 20 \<and> \<bar>int_y ant - cy\<bar> < 20
            then Inr (ant\<lparr>has_food := False, home_pher := 100\<rparr>, fd, n + 1)
            else Inr (ant, fd, n))
      else (case Food_get_value fd (PyInt (int_x ant)) (PyInt (int_y ant)) of
              Inl e \<Rightarrow> Inl e
            | Inr present \<Rightarrow>
                if present
                then (case Food_bite fd (PyInt (int_x ant)) (PyInt (int_y ant)) of
                        Inl e \<Rightarrow> Inl e
                      | Inr fd1 \<Rightarrow> Inr (ant\<lparr>has_food := True, food_pher := 100\<rparr>, fd1, n))
                else Inr (ant, fd, n)))"

text \<open>The loop of \<^verbatim>\<open>update\<close> over the agents, in list order.\<close>

fun update_ants ::
  "int \<Rightarrow> int \<Rightarrow> real \<Rightarrow> Ant list \<Rightarrow> ManualRNG \<Rightarrow> PMap \<Rightarrow> PMap \<Rightarrow> Food \<Rightarrow> int
   \<Rightarrow> error + (Ant list \<times> ManualRNG \<times> PMap \<times> PMap \<times> Food \<times> int)" where
  "update_ants cx cy dt [] g hm fm fd n = Inr ([], g, hm, fm, fd, n)"
| "update_ants cx cy dt (ant # rest) g hm fm fd n =
     (case Ant_step g ant hm fm dt of
        Inl e \<Rightarrow> Inl e
      | Inr (a1, hm1, fm1, g1) \<Rightarrow>
          (case nest_or_pickup cx cy a1 fd n of
             Inl e \<Rightarrow> Inl e
           | Inr (a2, fd1, n1) \<Rightarrow>
               (case update_ants cx cy dt rest g1 hm1 fm1 fd1 n1 of
                  Inl e \<Rightarrow> Inl e
                | Inr (rest1, st) \<Rightarrow> Inr (a2 # rest1, st))))"

definition Colony_update :: "World \<Rightarrow> real \<Rightarrow> error + World" where
  "Colony_update w dt =
     (let col = sim_colony w
      in case update_ants (colony_x col) (colony_y col) dt (ants col) (sim_rng w)
                (sim_pher_home w) (sim_pher_food w) (sim_food w) (food_delivered col) of
           Inl e \<Rightarrow> Inl e
         | Inr (as, g, hm, fm, fd, n) \<Rightarrow>
             Inr (w\<lparr>sim_rng := g, sim_colony := col\<lparr>ants := as, food_delivered := n\<rparr>,
                    sim_pher_home := hm, sim_pher_food := fm, sim_food := fd\<rparr>))"

text \<open>
  The body of the double loop of \<^verbatim>\<open>resolve_collisions\<close> for the pair \<open>i < j\<close>;
  \<^verbatim>\<open>math.hypot\<close> is the Euclidean norm.
\<close>

definition collide :: "nat \<Rightarrow> nat \<Rightarrow> Ant list \<times> ManualRNG \<Rightarrow> Ant list \<times> ManualRNG" where
  "collide i j st =
     (let (as, g) = st;
          ant1 = as ! i; ant2 = as ! j;
          dx = ant_x ant1 - ant_x ant2;
          dy = ant_y ant1 - ant_y ant2;
          dist = sqrt (dx * dx + dy * dy)
      in if dist < 8
         then (let (n0, n1, dist1, g1) =
                     (if dist = 0
                      then (let (angle, g1) = rng_uniform g 0 (2 * pi)
                            in (cos angle, sin angle, 1 / 10, g1))
                      else (dx / dist, dy / dist, dist, g));
                   penetration = 8 - dist1;
                   correction = (1 / 2) * penetration;
                   a1 = ant1\<lparr>ant_x := ant_x ant1 + correction * n0,
                             ant_y := ant_y ant1 + correction * n1\<rparr>;
                   a2 = ant2\<lparr>ant_x := ant_x ant2 - correction * n0,
                             ant_y := ant_y ant2 - correction * n1\<rparr>;
                   rel_vx = ant_dx a1 - ant_dx a2;
                   rel_vy = ant_dy a1 - ant_dy a2;
                   rel_dot = rel_vx * n0 + rel_vy * n1;
                   (b1, b2) =
                     (if rel_dot < 0
                      then (let e = 1 / 2;
                                impulse = - (1 + e) * rel_dot / 2
                            in (a1\<lparr>ant_dx := ant_dx a1 + impulse * n0,
                                    ant_dy := ant_dy a1 + impulse * n1\<rparr>,
                                a2\<lparr>ant_dx := ant_dx a2 - impulse * n0,
                                    ant_dy := ant_dy a2 - impulse * n1\<rparr>))
                      else (a1, a2))
               in (as[i := b1, j := b2], g1))
         else (as, g))"

definition resolve_pairs :: "Ant list \<times> ManualRNG \<Rightarrow> Ant list \<times> ManualRNG" where
  "resolve_pairs st =
     (let n = length (fst st)
      in fold (\<lambda>i s. fold (\<lambda>j s1. collide i j s1) [i + 1..<n] s) [0..<n] st)"

definition Colony_resolve_collisions :: "World \<Rightarrow> World" where
  "Colony_resolve_collisions w =
     (let (as, g) = resolve_pairs (ants (sim_colony w), sim_rng w)
      in w\<lparr>sim_rng := g, sim_colony := (sim_colony w)\<lparr>ants := as\<rparr>\<rparr>)"

section \<open>main.py: the driver's calls\<close>

text \<open>
  One pass of the main loop without the drawing: colony update, collisions, decay of
  both maps.
\<close>

definition advance_tick :: "(int \<times> int) integrator \<Rightarrow> World \<Rightarrow> real \<Rightarrow> error + World" where
  "advance_tick integrate w dt =
     (case Colony_update w dt of
        Inl e \<Rightarrow> Inl e
      | Inr w1 \<Rightarrow>
          (let w2 = Colony_resolve_collisions w1;
               w3 = w2\<lparr>sim_pher_home := Map_step integrate (sim_pher_home w2) dt\<rparr>
           in Inr (w3\<lparr>sim_pher_food := Map_step integrate (sim_pher_food w3) dt\<rparr>)))"

definition place_food :: "World \<Rightarrow> pynum \<Rightarrow> pynum \<Rightarrow> error + World" where
  "place_food w x y =
     (case Food_add_food (sim_food w) x y of
        Inl e \<Rightarrow> Inl e
      | Inr fd \<Rightarrow> Inr (w\<lparr>sim_food := fd\<rparr>))"

datatype call = AdvanceTick real | PlaceFood pynum pynum

fun run_calls :: "(int \<times> int) integrator \<Rightarrow> call list \<Rightarrow> World \<Rightarrow> error + World" where
  "run_calls integrate [] w = Inr w"
| "run_calls integrate (AdvanceTick dt # cs) w =
     (case advance_tick integrate w dt of
        Inl e \<Rightarrow> Inl e
      | Inr w1 \<Rightarrow> run_calls integrate cs w1)"
| "run_calls integrate (PlaceFood x y # cs) w =
     (case place_food w x y of
        Inl e \<Rightarrow> Inl e
      | Inr w1 \<Rightarrow> run_calls integrate cs w1)"

section \<open>Drivers and concrete inputs of the properties\<close>

text \<open>A sequence of writes \<open>(x, y, val)\<close> at integer coordinates.\<close>

definition Map_writes :: "PMap \<Rightarrow> (int \<times> int \<times> real) list \<Rightarrow> error + PMap" where
  "Map_writes mp ws = fold_err (\<lambda>(x, y, val) m. Map_set_value m (PyInt x) (PyInt y) val) ws mp"

text \<open>A map of 2 by 2 cells, all at 8, that halves per unit of time.\<close>

definition mp8 :: PMap where
  "mp8 = \<lparr>map_width = 2, map_height = 2, max_val = 100, evaporation_rate = 1 / 2,
          map_vals = (\<lambda>r c. 8)\<rparr>"

text \<open>The empty map and food field of \<^verbatim>\<open>main\<close>: 150 by 100 cells.\<close>

definition grid_map :: PMap where
  "grid_map = \<lparr>map_width = 150, map_height = 100, max_val = 100, evaporation_rate = 999 / 1000,
               map_vals = (\<lambda>r c. 0)\<rparr>"

definition grid_food :: Food where
  "grid_food = \<lparr>food_width = 150, food_height = 100, food_vals = (\<lambda>r c. False)\<rparr>"

text \<open>The generator seeded with 1.\<close>

definition rng1 :: ManualRNG where
  "rng1 = ManualRNG_init (Some 1) 0"

text \<open>
  An agent without food heading right at full speed, 0.1 short of the next integer
  position inside grid cell (75, 50).
\<close>

definition ant_c3 :: Ant where
  "ant_c3 = \<lparr>ant_dx = 1, ant_dy = 0, ant_x = 3009 / 10, ant_y = 200, int_x = 300, int_y = 200,
             last_x = 300, last_y = 200, has_food = False, home_pher = 100, food_pher = 100,
             use_rate = 995 / 1000, wander_chance = 92 / 100, bored = 0\<rparr>"

text \<open>Both velocity components within \<open>[-1, 1]\<close>.\<close>

definition vel_clamped :: "Ant \<Rightarrow> bool" where
  "vel_clamped a = (- 1 \<le> ant_dx a \<and> ant_dx a \<le> 1 \<and> - 1 \<le> ant_dy a \<and> ant_dy a \<le> 1)"

text \<open>
  Two agents without food with velocities in range, whose next step takes them to
  (303, 204) and (300, 200), five units apart; the colony of the two on the empty grid;
  and the agents, the home map and the colony after one update with \<open>dt = 0.45\<close>.
\<close>

definition ant_A :: Ant where
  "ant_A = \<lparr>ant_dx = 1, ant_dy = - 1, ant_x = 6051 / 20, ant_y = 4089 / 20, int_x = 302,
            int_y = 204, last_x = 302, last_y = 204, has_food = False, home_pher = 100,
            food_pher = 100, use_rate = 995 / 1000, wander_chance = 92 / 100, bored = 0\<rparr>"

definition ant_B :: Ant where
  "ant_B = \<lparr>ant_dx = 1, ant_dy = 1, ant_x = 5991 / 20, ant_y = 3991 / 20, int_x = 299,
            int_y = 199, last_x = 299, last_y = 199, has_food = False, home_pher = 100,
            food_pher = 100, use_rate = 995 / 1000, wander_chance = 92 / 100, bored = 0\<rparr>"

definition world_c4 :: World where
  "world_c4 = \<lparr>sim_rng = rng1,
               sim_colony = \<lparr>ants = [ant_A, ant_B], colony_x = 300, colony_y = 200,
                              food_delivered = 0\<rparr>,
               sim_pher_home = grid_map, sim_pher_food = grid_map, sim_food = grid_food\<rparr>"

definition ant_A1 :: Ant where
  "ant_A1 = ant_A\<lparr>ant_x := 303, ant_y := 204, int_x := 303, home_pher := 199 / 2, last_x := 303\<rparr>"

definition ant_B1 :: Ant where
  "ant_B1 = ant_B\<lparr>ant_x := 300, ant_y := 200, int_x := 300, int_y := 200, home_pher := 199 / 2,
                  last_x := 300, last_y := 200\<rparr>"

definition home_A1 :: PMap where
  "home_A1 = grid_map\<lparr>map_vals := (map_vals grid_map)(51 := (map_vals grid_map 51)(75 := 199 / 2))\<rparr>"

definition home_B1 :: PMap where
  "home_B1 = home_A1\<lparr>map_vals := (map_vals home_A1)(50 := (map_vals home_A1 50)(75 := 199 / 2))\<rparr>"

definition world_c4_updated :: World where
  "world_c4_updated =
     \<lparr>sim_rng = rng1\<lparr>rng_state := 2007237709\<rparr>,
      sim_colony = \<lparr>ants = [ant_A1, ant_B1], colony_x = 300, colony_y = 200, food_delivered = 0\<rparr>,
      sim_pher_home = home_B1, sim_pher_food = grid_map, sim_food = grid_food\<rparr>"

text \<open>
  A delivery in one update: the agent carried food into the update and ends it inside
  the nest box. The pair is the agent before and after the update.
\<close>

definition delivers :: "int \<Rightarrow> int \<Rightarrow> Ant \<times> Ant \<Rightarrow> bool" where
  "delivers cx cy p = (has_food (fst p) \<and> \<bar>int_x (snd p) - cx\<bar> < 20 \<and> \<bar>int_y (snd p) - cy\<bar> < 20)"

text \<open>
  An agent carrying food next to the nest at (300, 200), the colony of this one agent,
  and the colony after one update and after one whole tick with \<open>dt = 0.45\<close>.
\<close>

definition ant_D :: Ant where
  "ant_D = ant_c3\<lparr>has_food := True\<rparr>"

definition ant_D1 :: Ant where
  "ant_D1 = ant_c3\<lparr>ant_x := 6027 / 20, int_x := 301, food_pher := 199 / 2, last_x := 301\<rparr>"

definition food_D1 :: PMap where
  "food_D1 = grid_map\<lparr>map_vals := (map_vals grid_map)(50 := (map_vals grid_map 50)(75 := 199 / 2))\<rparr>"

definition world_c8 :: World where
  "world_c8 = \<lparr>sim_rng = rng1,
               sim_colony = \<lparr>ants = [ant_D], colony_x = 300, colony_y = 200, food_delivered = 0\<rparr>,
               sim_pher_home = grid_map, sim_pher_food = grid_map, sim_food = grid_food\<rparr>"

definition world_c8_updated :: World where
  "world_c8_updated =
     \<lparr>sim_rng = rng1\<lparr>rng_state := 1144108930\<rparr>,
      sim_colony = \<lparr>ants = [ant_D1], colony_x = 300, colony_y = 200, food_delivered = 1\<rparr>,
      sim_pher_home = grid_map, sim_pher_food = food_D1, sim_food = grid_food\<rparr>"

definition world_c8_ticked :: World where
  "world_c8_ticked =
     (let w2 = Colony_resolve_collisions world_c8_updated;
          w3 = w2\<lparr>sim_pher_home := Map_step closed_form (sim_pher_home w2) (9 / 20)\<rparr>
      in w3\<lparr>sim_pher_food := Map_step closed_form (sim_pher_food w3) (9 / 20)\<rparr>)"

text \<open>The distance of two agents, as \<^verbatim>\<open>math.hypot\<close> computes it.\<close>

definition ant_distance :: "Ant \<Rightarrow> Ant \<Rightarrow> real" where
  "ant_distance a b =
     sqrt ((ant_x a - ant_x b) * (ant_x a - ant_x b) + (ant_y a - ant_y b) * (ant_y a - ant_y b))"

text \<open>Two agents at rest at the same point.\<close>

definition ant_Z :: Ant where
  "ant_Z = \<lparr>ant_dx = 0, ant_dy = 0, ant_x = 300, ant_y = 200, int_x = 300, int_y = 200,
            last_x = 300, last_y = 200, has_food = False, home_pher = 100, food_pher = 100,
            use_rate = 995 / 1000, wander_chance = 92 / 100, bored = 0\<rparr>"

definition world_c5 :: World where
  "world_c5 = \<lparr>sim_rng = rng1,
               sim_colony = \<lparr>ants = [ant_Z, ant_Z], colony_x = 300, colony_y = 200,
                              food_delivered = 0\<rparr>,
               sim_pher_home = grid_map, sim_pher_food = grid_map, sim_food = grid_food\<rparr>"

section \<open>The random source\<close>

lemma rng_random_state:
  "rng_consts g \<Longrightarrow> rng_state (snd (rng_random g)) = (16807 * rng_state g) mod 2147483647"
  by (simp add: rng_random_def rng_consts_def Let_def)

lemma rng_random_consts: "rng_consts g \<Longrightarrow> rng_consts (snd (rng_random g))"
  by (simp add: rng_random_def rng_consts_def Let_def)

lemma rng_random_range:
  assumes "rng_consts g"
  shows "0 \<le> fst (rng_random g) \<and> fst (rng_random g) < 1"
proof -
  let ?s = "(16807 * rng_state g) mod 2147483647"
  have "0 \<le> ?s" "?s < 2147483647" by simp_all
  then show ?thesis using assms
    by (simp add: rng_random_def rng_consts_def Let_def)
qed

lemma rng_uniform_range:
  assumes "rng_consts g" and "lo < hi"
  shows "lo \<le> fst (rng_uniform g lo hi) \<and> fst (rng_uniform g lo hi) < hi"
proof -
  obtain r where r: "r = fst (rng_random g)" by simp
  have r01: "0 \<le> r" "r < 1" using rng_random_range [OF assms(1)] r by simp_all
  have u: "fst (rng_uniform g lo hi) = lo + (hi - lo) * r"
    by (simp add: rng_uniform_def r split: prod.split)
  have "0 \<le> (hi - lo) * r" using r01 assms(2) by simp
  moreover have "(hi - lo) * r < (hi - lo) * 1"
    using r01 assms(2) by (intro mult_strict_left_mono) simp_all
  ultimately show ?thesis using u by simp
qed

lemma lcg_nonzero:
  assumes "(s::int) mod 2147483647 \<noteq> 0"
  shows "(16807 * s) mod 2147483647 \<noteq> 0"
proof
  assume "(16807 * s) mod 2147483647 = 0"
  then have d: "(2147483647::int) dvd 16807 * s" by (simp add: dvd_eq_mod_eq_0)
  then have "(2147483647::int) dvd 1407677000 * (16807 * s)" by (rule dvd_mult)
  moreover have "(2147483647::int) dvd 2147483647 * (11017 * s)" by (rule dvd_triv_left)
  ultimately have "(2147483647::int) dvd 1407677000 * (16807 * s) - 2147483647 * (11017 * s)"
    by (rule dvd_diff)
  moreover have "1407677000 * (16807 * s) - 2147483647 * (11017 * s) = s" by simp
  ultimately have "(2147483647::int) dvd s" by simp
  then show False using assms by (simp add: dvd_eq_mod_eq_0)
qed

lemma lcg_zero:
  assumes "(s::int) mod 2147483647 = 0"
  shows "(16807 * s) mod 2147483647 = 0"
proof -
  have "(2147483647::int) dvd s" using assms by (simp add: dvd_eq_mod_eq_0)
  then have "(2147483647::int) dvd 16807 * s" by (rule dvd_mult)
  then show ?thesis by (simp add: dvd_eq_mod_eq_0)
qed

lemma rng_draws_consts: "rng_consts g \<Longrightarrow> rng_consts (rng_draws n g)"
  by (induction n arbitrary: g) (simp_all add: rng_random_consts)

lemma rng_draws_nonzero:
  "rng_consts g \<Longrightarrow> rng_state g mod 2147483647 \<noteq> 0
   \<Longrightarrow> rng_state (rng_draws n g) mod 2147483647 \<noteq> 0"
proof (induction n arbitrary: g)
  case 0
  then show ?case by simp
next
  case (Suc n)
  have "rng_state (snd (rng_random g)) mod 2147483647 \<noteq> 0"
    using Suc.prems lcg_nonzero [of "rng_state g"] by (simp add: rng_random_state)
  then show ?case using Suc.IH [of "snd (rng_random g)"] Suc.prems(1)
    by (simp add: rng_random_consts)
qed

lemma rng_draws_zero:
  "rng_consts g \<Longrightarrow> rng_state g mod 2147483647 = 0
   \<Longrightarrow> rng_state (rng_draws n g) mod 2147483647 = 0"
proof (induction n arbitrary: g)
  case 0
  then show ?case by simp
next
  case (Suc n)
  have "(16807 * rng_state g) mod 2147483647 = 0"
    using Suc.prems(2) lcg_zero by simp
  then have "rng_state (snd (rng_random g)) mod 2147483647 = 0"
    using Suc.prems(1) by (simp add: rng_random_state)
  then show ?case using Suc.IH [of "snd (rng_random g)"] Suc.prems(1)
    by (simp add: rng_random_consts)
qed

lemma rng_random_pos:
  assumes "rng_consts g" and "rng_state g mod 2147483647 \<noteq> 0"
  shows "0 < fst (rng_random g)"
proof -
  let ?s = "(16807 * rng_state g) mod 2147483647"
  have "?s \<noteq> 0" using lcg_nonzero [OF assms(2)] .
  moreover have "0 \<le> ?s" by simp
  ultimately have "0 < ?s" by linarith
  then show ?thesis using assms(1)
    by (simp add: rng_random_def rng_consts_def Let_def)
qed

lemma rng_random_zero:
  assumes "rng_consts g" and "rng_state g mod 2147483647 = 0"
  shows "fst (rng_random g) = 0"
proof -
  have "(16807 * rng_state g) mod 2147483647 = 0"
    using assms(2) lcg_zero by simp
  then show ?thesis using assms(1)
    by (simp add: rng_random_def rng_consts_def Let_def)
qed

lemma rng_normal_ok:
  assumes "rng_consts g" and "rng_state g mod 2147483647 \<noteq> 0"
  shows "\<exists>z g2. rng_normal g mean std = Inr (z, g2)"
proof -
  obtain u1 g1 where a: "rng_random g = (u1, g1)" by (cases "rng_random g")
  obtain u2 g2 where b: "rng_random g1 = (u2, g2)" by (cases "rng_random g1")
  have "0 < u1" using rng_random_pos [OF assms] a by simp
  moreover have "u1 < 1" using rng_random_range [OF assms(1)] a by simp
  ultimately have "0 < u1" "ln u1 < 0" by simp_all
  then show ?thesis by (simp add: rng_normal_def a b)
qed

lemma rng_normal_zero:
  assumes "rng_consts g" and "rng_state g mod 2147483647 = 0"
  shows "rng_normal g mean std = Inl ValueError"
proof -
  obtain u1 g1 where a: "rng_random g = (u1, g1)" by (cases "rng_random g")
  have "u1 = 0" using rng_random_zero [OF assms] a by simp
  then show ?thesis by (simp add: rng_normal_def a split: prod.split)
qed

text \<open>
  C10. From a seed in \<open>[1, 2147483647)\<close> the state is nonzero after every draw, every
  draw lies strictly between 0 and 1, and \<^verbatim>\<open>normal\<close> returns a value (its logarithm
  has a positive argument). From a state congruent to 0 every draw returns 0 and
  \<^verbatim>\<open>normal\<close> takes the logarithm of 0, which raises ValueError.
\<close>

theorem rng_zero_state_safety:
  "rng_consts g \<Longrightarrow>
     (1 \<le> rng_state g \<and> rng_state g < 2147483647 \<longrightarrow>
        rng_state (rng_draws (Suc n) g) \<noteq> 0 \<and>
        0 < fst (rng_random (rng_draws n g)) \<and> fst (rng_random (rng_draws n g)) < 1 \<and>
        (\<exists>z g2. rng_normal (rng_draws n g) mean std = Inr (z, g2))) \<and>
     (rng_state g mod 2147483647 = 0 \<longrightarrow>
        fst (rng_random (rng_draws n g)) = 0 \<and>
        rng_normal (rng_draws n g) mean std = Inl ValueError)"
proof (intro conjI impI)
  assume c: "rng_consts g"
  note cn = rng_draws_consts [OF c, of n]
  {
    assume "1 \<le> rng_state g \<and> rng_state g < 2147483647"
    then have nz: "rng_state g mod 2147483647 \<noteq> 0" by simp
    note nzn = rng_draws_nonzero [OF c nz]
    show "rng_state (rng_draws (Suc n) g) \<noteq> 0" using nzn [of "Suc n"] by auto
    show "0 < fst (rng_random (rng_draws n g))" using rng_random_pos [OF cn nzn] .
    show "fst (rng_random (rng_draws n g)) < 1" using rng_random_range [OF cn] by simp
    show "\<exists>z g2. rng_normal (rng_draws n g) mean std = Inr (z, g2)"
      using rng_normal_ok [OF cn nzn] .
  }
  {
    assume z: "rng_state g mod 2147483647 = 0"
    note zn = rng_draws_zero [OF c z, of n]
    show "fst (rng_random (rng_draws n g)) = 0" using rng_random_zero [OF cn zn] .
    show "rng_normal (rng_draws n g) mean std = Inl ValueError" using rng_normal_zero [OF cn zn] .
  }
qed

theorem rng_zero_state_safety_witness:
  "rng_consts (ManualRNG_init (Some 1) 0) \<and>
   rng_state (rng_draws (Suc 2) (ManualRNG_init (Some 1) 0)) \<noteq> 0 \<and>
   0 < fst (rng_random (rng_draws 2 (ManualRNG_init (Some 1) 0))) \<and>
   rng_consts (ManualRNG_init (Some 0) 0) \<and>
   fst (rng_random (rng_draws 2 (ManualRNG_init (Some 0) 0))) = 0 \<and>
   rng_normal (rng_draws 2 (ManualRNG_init (Some 0) 0)) 0 1 = Inl ValueError"
proof -
  have c1: "rng_consts (ManualRNG_init (Some 1) 0)"
    by (simp add: rng_consts_def ManualRNG_init_def)
  have c0: "rng_consts (ManualRNG_init (Some 0) 0)"
    by (simp add: rng_consts_def ManualRNG_init_def)
  have s1: "rng_state (ManualRNG_init (Some 1) 0) = 1" "rng_state (ManualRNG_init (Some 0) 0) = 0"
    by (simp_all add: ManualRNG_init_def)
  show ?thesis
    using c1 c0 rng_zero_state_safety [OF c1, of 2 0 1] rng_zero_state_safety [OF c0, of 2 0 1]
    by (simp add: s1)
qed

section \<open>The fields\<close>

lemma in_range_int: "in_range (PyInt i) n = (0 \<le> i \<and> i < n)"
  by (simp add: in_range_def)

lemma np_get_int:
  "0 \<le> r \<Longrightarrow> r < h \<Longrightarrow> 0 \<le> c \<Longrightarrow> c < w \<Longrightarrow> np_get h w arr (PyInt r) (PyInt c) = Inr (arr r c)"
  by (simp add: np_get_def)

lemma np_set_int:
  "0 \<le> r \<Longrightarrow> r < h \<Longrightarrow> 0 \<le> c \<Longrightarrow> c < w
   \<Longrightarrow> np_set h w arr (PyInt r) (PyInt c) v = Inr (arr(r := (arr r)(c := v)))"
  by (simp add: np_set_def)

lemma Map_set_value_int:
  "Map_set_value mp (PyInt x) (PyInt y) val =
     Inr (if 0 \<le> x div 4 \<and> x div 4 < map_width mp \<and> 0 \<le> y div 4 \<and> y div 4 < map_height mp
             \<and> val > map_vals mp (y div 4) (x div 4)
          then mp\<lparr>map_vals := (map_vals mp)(y div 4 := (map_vals mp (y div 4))(x div 4 := val))\<rparr>
          else mp)"
  by (simp add: Map_set_value_def Let_def in_range_int np_get_int np_set_int)

lemma Map_get_value_int:
  "Map_get_value mp (PyInt x) (PyInt y) =
     Inr (if 0 \<le> x div 4 \<and> x div 4 < map_width mp \<and> 0 \<le> y div 4 \<and> y div 4 < map_height mp
          then map_vals mp (y div 4) (x div 4) else - 1)"
  by (simp add: Map_get_value_def in_range_int np_get_int)

lemma Food_get_value_int:
  "Food_get_value fd (PyInt x) (PyInt y) =
     Inr (if 0 \<le> x div 4 \<and> x div 4 < food_width fd \<and> 0 \<le> y div 4 \<and> y div 4 < food_height fd
          then food_vals fd (y div 4) (x div 4) else False)"
  by (simp add: Food_get_value_def in_range_int np_get_int)

lemma Food_bite_int:
  "Food_bite fd (PyInt x) (PyInt y) =
     Inr (if 0 \<le> x div 4 \<and> x div 4 < food_width fd \<and> 0 \<le> y div 4 \<and> y div 4 < food_height fd
          then fd\<lparr>food_vals := (food_vals fd)(y div 4 := (food_vals fd (y div 4))(x div 4 := False))\<rparr>
          else fd)"
  by (simp add: Food_bite_def in_range_int np_set_int)

lemma fold_err_total:
  assumes "\<And>v s. \<exists>s1. f v s = Inr s1"
  shows "\<exists>s1. fold_err f vs s = Inr s1"
proof (induction vs arbitrary: s)
  case Nil
  then show ?case by simp
next
  case (Cons v vs)
  obtain s1 where "f v s = Inr s1" using assms by blast
  then show ?case using Cons.IH [of s1] by simp
qed

lemma fold_err_fixed:
  assumes "\<And>v. v \<in> set vs \<Longrightarrow> f v s = Inr s"
  shows "fold_err f vs s = Inr s"
  using assms by (induction vs) simp_all

lemma direction_body_int:
  "\<exists>acc1. direction_body mp (PyInt gx) (PyInt gy) d acc = Inr acc1"
  by (cases d; cases acc) (simp add: direction_body_def in_range_int np_get_int)

lemma Map_get_weighted_direction_int:
  "\<exists>d. Map_get_weighted_direction mp (PyInt x) (PyInt y) = Inr d"
proof -
  obtain sx sy tv where
    "fold_err (direction_body mp (PyInt (x div 4)) (PyInt (y div 4))) directions (0, 0, 0)
       = Inr (sx, sy, tv)"
    using fold_err_total [of "direction_body mp (PyInt (x div 4)) (PyInt (y div 4))"
        directions "(0, 0, 0)"] direction_body_int
    by (metis prod_cases3)
  then show ?thesis by (simp add: Map_get_weighted_direction_def)
qed

lemma grid_map_init: "Map_init 150 100 100 (999 / 1000) = Inr grid_map"
  by (simp add: Map_init_def grid_map_def)

lemma grid_food_init: "Food_init 150 100 = Inr grid_food"
  by (simp add: Food_init_def grid_food_def)

lemma row_fold:
  assumes "\<forall>j\<in>set cols. 0 \<le> j \<and> j < food_width fd" and "0 \<le> i" and "i < food_height fd"
  shows "\<exists>fd1. fold_err (\<lambda>j f. case np_set (food_height f) (food_width f) (food_vals f)
                                      (PyInt i) (PyInt j) True of
                                 Inl e \<Rightarrow> Inl e
                               | Inr arr \<Rightarrow> Inr (f\<lparr>food_vals := arr\<rparr>)) cols fd = Inr fd1
           \<and> food_width fd1 = food_width fd \<and> food_height fd1 = food_height fd
           \<and> (\<forall>r c. food_vals fd1 r c = (food_vals fd r c \<or> (r = i \<and> c \<in> set cols)))"
  using assms
proof (induction cols arbitrary: fd)
  case Nil
  then show ?case by simp
next
  case (Cons j cols)
  let ?f1 = "fd\<lparr>food_vals := (food_vals fd)(i := (food_vals fd i)(j := True))\<rparr>"
  have s: "np_set (food_height fd) (food_width fd) (food_vals fd) (PyInt i) (PyInt j) True
             = Inr ((food_vals fd)(i := (food_vals fd i)(j := True)))"
    using Cons.prems by (simp add: np_set_int)
  obtain fd1 where fd1:
    "fold_err (\<lambda>j f. case np_set (food_height f) (food_width f) (food_vals f)
                                      (PyInt i) (PyInt j) True of
                                 Inl e \<Rightarrow> Inl e
                               | Inr arr \<Rightarrow> Inr (f\<lparr>food_vals := arr\<rparr>)) cols ?f1 = Inr fd1"
    "food_width fd1 = food_width ?f1" "food_height fd1 = food_height ?f1"
    "\<forall>r c. food_vals fd1 r c = (food_vals ?f1 r c \<or> (r = i \<and> c \<in> set cols))"
    using Cons.IH [of ?f1] Cons.prems by auto
  show ?case
    using fd1 by (auto simp: s)
qed

lemma add_food_row_ok:
  assumes "0 \<le> gx" and "0 \<le> i" and "i < food_height fd"
  shows "\<exists>fd1. add_food_row (PyInt gx) i fd = Inr fd1
           \<and> food_width fd1 = food_width fd \<and> food_height fd1 = food_height fd
           \<and> (\<forall>r c. food_vals fd1 r c
                 = (food_vals fd r c \<or> (r = i \<and> gx \<le> c \<and> c < min (gx + 5) (food_width fd))))"
proof -
  have r: "py_range (PyInt gx) (py_min_int (num_add_int (PyInt gx) 5) (food_width fd))
             = Inr [gx..min (gx + 5) (food_width fd) - 1]"
    by (simp add: py_min_int_def min_def)
  have "\<forall>j\<in>set [gx..min (gx + 5) (food_width fd) - 1]. 0 \<le> j \<and> j < food_width fd"
    using assms(1) by auto
  from row_fold [OF this assms(2,3)] show ?thesis
    unfolding add_food_row_def r by (auto simp: min_def)
qed

lemma rows_fold:
  assumes "\<forall>i\<in>set rows. 0 \<le> i \<and> i < food_height fd" and "0 \<le> gx"
  shows "\<exists>fd1. fold_err (add_food_row (PyInt gx)) rows fd = Inr fd1
           \<and> food_width fd1 = food_width fd \<and> food_height fd1 = food_height fd
           \<and> (\<forall>r c. food_vals fd1 r c
                 = (food_vals fd r c
                    \<or> (r \<in> set rows \<and> gx \<le> c \<and> c < min (gx + 5) (food_width fd))))"
  using assms
proof (induction rows arbitrary: fd)
  case Nil
  then show ?case by simp
next
  case (Cons i rows)
  obtain f1 where f1: "add_food_row (PyInt gx) i fd = Inr f1"
    "food_width f1 = food_width fd" "food_height f1 = food_height fd"
    "\<forall>r c. food_vals f1 r c
        = (food_vals fd r c \<or> (r = i \<and> gx \<le> c \<and> c < min (gx + 5) (food_width fd)))"
    using add_food_row_ok [of gx i fd] Cons.prems by auto
  obtain f2 where f2: "fold_err (add_food_row (PyInt gx)) rows f1 = Inr f2"
    "food_width f2 = food_width f1" "food_height f2 = food_height f1"
    "\<forall>r c. food_vals f2 r c
        = (food_vals f1 r c \<or> (r \<in> set rows \<and> gx \<le> c \<and> c < min (gx + 5) (food_width f1)))"
    using Cons.IH [of f1] Cons.prems f1(3) by auto
  show ?case
    using f1 f2 by auto
qed

lemma Food_add_food_ok:
  assumes "0 \<le> x" and "0 \<le> y"
  shows "\<exists>fd1. Food_add_food fd (PyInt x) (PyInt y) = Inr fd1
           \<and> food_width fd1 = food_width fd \<and> food_height fd1 = food_height fd
           \<and> (\<forall>r c. food_vals fd1 r c
                 = (food_vals fd r c
                    \<or> (y div 4 \<le> r \<and> r < min (y div 4 + 5) (food_height fd)
                        \<and> x div 4 \<le> c \<and> c < min (x div 4 + 5) (food_width fd))))"
proof -
  have g: "0 \<le> x div 4" "0 \<le> y div 4" using assms by simp_all
  have r: "py_range (PyInt (y div 4)) (py_min_int (num_add_int (PyInt (y div 4)) 5) (food_height fd))
             = Inr [y div 4..min (y div 4 + 5) (food_height fd) - 1]"
    by (simp add: py_min_int_def min_def)
  have "\<forall>i\<in>set [y div 4..min (y div 4 + 5) (food_height fd) - 1]. 0 \<le> i \<and> i < food_height fd"
    using g(2) by auto
  from rows_fold [OF this g(1)] show ?thesis
    unfolding Food_add_food_def Let_def floordiv4.simps r by (auto simp: min_def)
qed

lemma Map_get_value_outside:
  assumes "\<not> (in_range (floordiv4 x) (map_width mp) \<and> in_range (floordiv4 y) (map_height mp))"
  shows "Map_get_value mp x y = Inr (- 1)"
  using assms by (auto simp: Map_get_value_def Let_def)

lemma Map_set_value_outside:
  assumes "\<not> (in_range (floordiv4 x) (map_width mp) \<and> in_range (floordiv4 y) (map_height mp))"
  shows "Map_set_value mp x y val = Inr mp"
  using assms by (auto simp: Map_set_value_def Let_def)

lemma Food_get_value_outside:
  assumes "\<not> (in_range (floordiv4 x) (food_width fd) \<and> in_range (floordiv4 y) (food_height fd))"
  shows "Food_get_value fd x y = Inr False"
  using assms by (auto simp: Food_get_value_def Let_def)

lemma Food_bite_outside:
  assumes "\<not> (in_range (floordiv4 x) (food_width fd) \<and> in_range (floordiv4 y) (food_height fd))"
  shows "Food_bite fd x y = Inr fd"
  using assms by (auto simp: Food_bite_def Let_def)

lemma direction_body_outside:
  assumes "\<not> (in_range (num_add_int gx (fst d)) (map_width mp)
              \<and> in_range (num_add_int gy (snd d)) (map_height mp))"
  shows "direction_body mp gx gy d acc = Inr acc"
  using assms by (cases d; cases acc) (auto simp: direction_body_def Let_def)

lemma Map_get_weighted_direction_outside:
  assumes "\<forall>d\<in>set directions.
             \<not> (in_range (num_add_int (floordiv4 x) (fst d)) (map_width mp)
                 \<and> in_range (num_add_int (floordiv4 y) (snd d)) (map_height mp))"
  shows "Map_get_weighted_direction mp x y = Inr (0, 0)"
proof -
  have "fold_err (direction_body mp (floordiv4 x) (floordiv4 y)) directions (0, 0, 0)
          = Inr (0, 0, 0)"
    using assms by (intro fold_err_fixed direction_body_outside) blast
  then show ?thesis by (simp add: Map_get_weighted_direction_def)
qed

lemma add_food_row_no_columns:
  assumes "food_width fd \<le> gx"
  shows "add_food_row (PyInt gx) i fd = Inr fd"
proof -
  have "py_range (PyInt gx) (py_min_int (num_add_int (PyInt gx) 5) (food_width fd)) = Inr []"
    using assms by (simp add: py_min_int_def)
  then show ?thesis by (simp add: add_food_row_def)
qed

lemma Food_add_food_no_columns:
  assumes "food_width fd \<le> x div 4"
  shows "Food_add_food fd (PyInt x) (PyInt y) = Inr fd"
proof -
  have r: "py_range (PyInt (y div 4)) (py_min_int (num_add_int (PyInt (y div 4)) 5) (food_height fd))
             = Inr [y div 4..min (y div 4 + 5) (food_height fd) - 1]"
    by (simp add: py_min_int_def min_def)
  have "fold_err (add_food_row (PyInt (x div 4))) [y div 4..min (y div 4 + 5) (food_height fd) - 1] fd
          = Inr fd"
    by (intro fold_err_fixed add_food_row_no_columns assms)
  then show ?thesis
    unfolding Food_add_food_def Let_def floordiv4.simps r by simp
qed

lemma Food_add_food_no_rows:
  assumes "food_height fd \<le> y div 4"
  shows "Food_add_food fd x (PyInt y) = Inr fd"
proof -
  have "py_range (PyInt (y div 4)) (py_min_int (num_add_int (PyInt (y div 4)) 5) (food_height fd))
          = Inr []"
    using assms by (simp add: py_min_int_def)
  then show ?thesis by (simp add: Food_add_food_def)
qed

lemma Food_add_food_block:
  assumes "(0 \<le> x \<and> 0 \<le> y) \<or> food_width fd \<le> x div 4 \<or> food_height fd \<le> y div 4"
  shows "\<exists>fd1. Food_add_food fd (PyInt x) (PyInt y) = Inr fd1 \<and>
           (\<forall>r c. food_vals fd1 r c
                   = (food_vals fd r c
                      \<or> (y div 4 \<le> r \<and> r < min (y div 4 + 5) (food_height fd)
                          \<and> x div 4 \<le> c \<and> c < min (x div 4 + 5) (food_width fd))))"
proof -
  consider (inside) "0 \<le> x \<and> 0 \<le> y" | (right) "food_width fd \<le> x div 4"
    | (below) "food_height fd \<le> y div 4"
    using assms by blast
  then show ?thesis
  proof cases
    case inside
    then show ?thesis using Food_add_food_ok [of x y fd] by blast
  next
    case right
    then show ?thesis using Food_add_food_no_columns [of fd x y] by auto
  next
    case below
    then show ?thesis using Food_add_food_no_rows [of fd y "PyInt x"] by auto
  qed
qed

text \<open>
  C2 fails as stated: a float coordinate that maps into the grid is used as an array
  index and raises IndexError, \<^verbatim>\<open>add_food\<close> hands a float to \<^verbatim>\<open>range\<close> and raises
  TypeError, and \<^verbatim>\<open>add_food\<close> far to the left of the grid indexes the array below
  \<open>-width\<close> and raises IndexError; just left of the grid its index \<open>-1\<close> marks the
  last column.
\<close>

theorem field_bounds_counterexample:
  "Map_get_value grid_map (PyFloat 10) (PyFloat 10) = Inl IndexError \<and>
   Food_add_food grid_food (PyFloat 10) (PyFloat 10) = Inl TypeError \<and>
   Food_add_food grid_food (PyInt (- 4000)) (PyInt 0) = Inl IndexError \<and>
   map_sum id (\<lambda>f. food_vals f 0 149) (Food_add_food grid_food (PyInt (- 4)) (PyInt 0)) = Inr True"
proof (intro conjI)
  show "Map_get_value grid_map (PyFloat 10) (PyFloat 10) = Inl IndexError"
    by (simp add: Map_get_value_def grid_map_def in_range_def np_get_def)
  show "Food_add_food grid_food (PyFloat 10) (PyFloat 10) = Inl TypeError"
    by (simp add: Food_add_food_def grid_food_def)
  show "Food_add_food grid_food (PyInt (- 4000)) (PyInt 0) = Inl IndexError"
    by (simp add: Food_add_food_def grid_food_def py_min_int_def add_food_row_def np_set_def
        upto.simps)
  show "map_sum id (\<lambda>f. food_vals f 0 149) (Food_add_food grid_food (PyInt (- 4)) (PyInt 0))
          = Inr True"
    by (simp add: Food_add_food_def grid_food_def py_min_int_def add_food_row_def np_set_def
        upto.simps)
qed

text \<open>
  C2, amended. On the following inputs, far negative and far positive ones included, the
  operations return without an error. At integer coordinates: \<^verbatim>\<open>get_value\<close>,
  \<^verbatim>\<open>set_value\<close> and \<^verbatim>\<open>get_weighted_direction\<close> of the map and \<^verbatim>\<open>get_value\<close> and
  \<^verbatim>\<open>bite\<close> of the food field; outside the grid the reads return -1 and False and the
  writes leave the field as it is. At every pair of numbers, floats included, whose cell
  is outside the grid: the two reads, which return -1 and False, and the two writes
  \<^verbatim>\<open>set_value\<close> and \<^verbatim>\<open>bite\<close>, which leave the field as it is. At every pair of
  numbers with no neighbour cell in the grid: \<^verbatim>\<open>get_weighted_direction\<close>, which
  returns (0, 0). \<^verbatim>\<open>add_food\<close> at integer coordinates that are not negative, or whose
  cell is at or beyond the width or the height: it marks exactly the cells of the block of
  5 by 5 that are in the grid. And \<^verbatim>\<open>add_food\<close> at any \<open>x\<close>, a float included, with an
  integer \<open>y\<close> whose row is at or beyond the height: it leaves the field as it is.
\<close>

theorem field_bounds_safety:
  "Map_get_value mp (PyInt xi) (PyInt yi)
     = Inr (if 0 \<le> xi div 4 \<and> xi div 4 < map_width mp \<and> 0 \<le> yi div 4 \<and> yi div 4 < map_height mp
            then map_vals mp (yi div 4) (xi div 4) else - 1) \<and>
   (\<exists>mp1. Map_set_value mp (PyInt xi) (PyInt yi) val = Inr mp1 \<and>
      (\<not> (0 \<le> xi div 4 \<and> xi div 4 < map_width mp \<and> 0 \<le> yi div 4 \<and> yi div 4 < map_height mp)
         \<longrightarrow> mp1 = mp)) \<and>
   (\<exists>d. Map_get_weighted_direction mp (PyInt xi) (PyInt yi) = Inr d) \<and>
   Food_get_value fd (PyInt xi) (PyInt yi)
     = Inr (if 0 \<le> xi div 4 \<and> xi div 4 < food_width fd \<and> 0 \<le> yi div 4 \<and> yi div 4 < food_height fd
            then food_vals fd (yi div 4) (xi div 4) else False) \<and>
   (\<exists>fd1. Food_bite fd (PyInt xi) (PyInt yi) = Inr fd1 \<and>
      (\<not> (0 \<le> xi div 4 \<and> xi div 4 < food_width fd \<and> 0 \<le> yi div 4 \<and> yi div 4 < food_height fd)
         \<longrightarrow> fd1 = fd)) \<and>
   ((0 \<le> xi \<and> 0 \<le> yi) \<or> food_width fd \<le> xi div 4 \<or> food_height fd \<le> yi div 4 \<longrightarrow>
      (\<exists>fd1. Food_add_food fd (PyInt xi) (PyInt yi) = Inr fd1 \<and>
         (\<forall>r c. food_vals fd1 r c
                 = (food_vals fd r c
                    \<or> (yi div 4 \<le> r \<and> r < min (yi div 4 + 5) (food_height fd)
                        \<and> xi div 4 \<le> c \<and> c < min (xi div 4 + 5) (food_width fd)))))) \<and>
   (\<not> (in_range (floordiv4 x) (map_width mp) \<and> in_range (floordiv4 y) (map_height mp)) \<longrightarrow>
      Map_get_value mp x y = Inr (- 1) \<and> Map_set_value mp x y val = Inr mp) \<and>
   ((\<forall>d\<in>set directions.
        \<not> (in_range (num_add_int (floordiv4 x) (fst d)) (map_width mp)
            \<and> in_range (num_add_int (floordiv4 y) (snd d)) (map_height mp))) \<longrightarrow>
      Map_get_weighted_direction mp x y = Inr (0, 0)) \<and>
   (\<not> (in_range (floordiv4 x) (food_width fd) \<and> in_range (floordiv4 y) (food_height fd)) \<longrightarrow>
      Food_get_value fd x y = Inr False \<and> Food_bite fd x y = Inr fd) \<and>
   (food_height fd \<le> yi div 4 \<longrightarrow> Food_add_food fd x (PyInt yi) = Inr fd)"
proof -
  have a: "(0 \<le> xi \<and> 0 \<le> yi) \<or> food_width fd \<le> xi div 4 \<or> food_height fd \<le> yi div 4 \<longrightarrow>
      (\<exists>fd1. Food_add_food fd (PyInt xi) (PyInt yi) = Inr fd1 \<and>
         (\<forall>r c. food_vals fd1 r c
                 = (food_vals fd r c
                    \<or> (yi div 4 \<le> r \<and> r < min (yi div 4 + 5) (food_height fd)
                        \<and> xi div 4 \<le> c \<and> c < min (xi div 4 + 5) (food_width fd)))))"
    using Food_add_food_block [of xi yi fd] by blast
  have b: "\<not> (in_range (floordiv4 x) (map_width mp) \<and> in_range (floordiv4 y) (map_height mp)) \<longrightarrow>
      Map_get_value mp x y = Inr (- 1) \<and> Map_set_value mp x y val = Inr mp"
    using Map_get_value_outside [of x mp y] Map_set_value_outside [of x mp y val] by blast
  have c: "(\<forall>d\<in>set directions.
        \<not> (in_range (num_add_int (floordiv4 x) (fst d)) (map_width mp)
            \<and> in_range (num_add_int (floordiv4 y) (snd d)) (map_height mp))) \<longrightarrow>
      Map_get_weighted_direction mp x y = Inr (0, 0)"
    using Map_get_weighted_direction_outside [of x mp y] by blast
  have d: "\<not> (in_range (floordiv4 x) (food_width fd) \<and> in_range (floordiv4 y) (food_height fd)) \<longrightarrow>
      Food_get_value fd x y = Inr False \<and> Food_bite fd x y = Inr fd"
    using Food_get_value_outside [of x fd y] Food_bite_outside [of x fd y] by blast
  have e: "food_height fd \<le> yi div 4 \<longrightarrow> Food_add_food fd x (PyInt yi) = Inr fd"
    using Food_add_food_no_rows [of fd yi x] by blast
  have i: "Map_get_value mp (PyInt xi) (PyInt yi)
     = Inr (if 0 \<le> xi div 4 \<and> xi div 4 < map_width mp \<and> 0 \<le> yi div 4 \<and> yi div 4 < map_height mp
            then map_vals mp (yi div 4) (xi div 4) else - 1)"
    by (rule Map_get_value_int)
  have j: "\<exists>mp1. Map_set_value mp (PyInt xi) (PyInt yi) val = Inr mp1 \<and>
      (\<not> (0 \<le> xi div 4 \<and> xi div 4 < map_width mp \<and> 0 \<le> yi div 4 \<and> yi div 4 < map_height mp)
         \<longrightarrow> mp1 = mp)"
    by (simp add: Map_set_value_int)
  have k: "\<exists>d. Map_get_weighted_direction mp (PyInt xi) (PyInt yi) = Inr d"
    by (rule Map_get_weighted_direction_int)
  have l: "Food_get_value fd (PyInt xi) (PyInt yi)
     = Inr (if 0 \<le> xi div 4 \<and> xi div 4 < food_width fd \<and> 0 \<le> yi div 4 \<and> yi div 4 < food_height fd
            then food_vals fd (yi div 4) (xi div 4) else False)"
    by (rule Food_get_value_int)
  have m: "\<exists>fd1. Food_bite fd (PyInt xi) (PyInt yi) = Inr fd1 \<and>
      (\<not> (0 \<le> xi div 4 \<and> xi div 4 < food_width fd \<and> 0 \<le> yi div 4 \<and> yi div 4 < food_height fd)
         \<longrightarrow> fd1 = fd)"
    by (simp add: Food_bite_int)
  show ?thesis
    by (intro conjI i j k l m a b c d e)
qed

theorem field_bounds_safety_witness:
  "Map_get_value grid_map (PyInt (- 4000)) (PyInt 4000) = Inr (- 1) \<and>
   (\<exists>mp1. Map_set_value grid_map (PyInt (- 4000)) (PyInt 4000) 50 = Inr mp1 \<and> mp1 = grid_map) \<and>
   (\<exists>fd1. Food_bite grid_food (PyInt (- 4000)) (PyInt 4000) = Inr fd1 \<and> fd1 = grid_food) \<and>
   (0::int) \<le> 596 \<and> (0::int) \<le> 300 \<and>
   (\<exists>fd1. Food_add_food grid_food (PyInt 596) (PyInt 300) = Inr fd1 \<and>
      food_vals fd1 75 149 \<and> food_vals fd1 79 149 \<and> \<not> food_vals fd1 80 149
      \<and> \<not> food_vals fd1 75 148) \<and>
   in_range (floordiv4 (PyFloat (- (8001 / 2)))) (map_width grid_map) = False \<and>
   Map_get_value grid_map (PyFloat (- (8001 / 2))) (PyFloat 1000000) = Inr (- 1) \<and>
   Map_set_value grid_map (PyFloat (- (8001 / 2))) (PyFloat 1000000) 50 = Inr grid_map \<and>
   filter (\<lambda>d. in_range (num_add_int (floordiv4 (PyFloat (- (8001 / 2)))) (fst d))
                  (map_width grid_map)
               \<and> in_range (num_add_int (floordiv4 (PyFloat 1000000)) (snd d))
                    (map_height grid_map)) directions = [] \<and>
   Map_get_weighted_direction grid_map (PyFloat (- (8001 / 2))) (PyFloat 1000000) = Inr (0, 0) \<and>
   in_range (floordiv4 (PyFloat (- (8001 / 2)))) (food_width grid_food) = False \<and>
   Food_get_value grid_food (PyFloat (- (8001 / 2))) (PyFloat 1000000) = Inr False \<and>
   Food_bite grid_food (PyFloat (- (8001 / 2))) (PyFloat 1000000) = Inr grid_food \<and>
   food_height grid_food \<le> 4000 div 4 \<and>
   Food_add_food grid_food (PyFloat 10) (PyInt 4000) = Inr grid_food"
proof -
  note t1 = field_bounds_safety [where mp = grid_map and xi = "- 4000" and yi = 4000 and val = 50
      and fd = grid_food and x = "PyFloat (- (8001 / 2))" and y = "PyFloat 1000000"]
  note t2 = field_bounds_safety [where mp = grid_map and xi = 596 and yi = 300 and val = 50
      and fd = grid_food and x = "PyFloat 10" and y = "PyFloat 10"]
  note t3 = field_bounds_safety [where mp = grid_map and xi = 0 and yi = 4000 and val = 50
      and fd = grid_food and x = "PyFloat 10" and y = "PyFloat 10"]
  have o1: "in_range (floordiv4 (PyFloat (- (8001 / 2)))) (map_width grid_map) = False"
    by (simp add: in_range_def grid_map_def)
  have o2: "in_range (floordiv4 (PyFloat (- (8001 / 2)))) (food_width grid_food) = False"
    by (simp add: in_range_def grid_food_def)
  have o3: "filter (\<lambda>d. in_range (num_add_int (floordiv4 (PyFloat (- (8001 / 2)))) (fst d))
                  (map_width grid_map)
               \<and> in_range (num_add_int (floordiv4 (PyFloat 1000000)) (snd d))
                    (map_height grid_map)) directions = []"
    by (simp add: in_range_def grid_map_def directions_def)
  have o4: "food_height grid_food \<le> 4000 div 4" by (simp add: grid_food_def)
  have a: "Map_get_value grid_map (PyInt (- 4000)) (PyInt 4000) = Inr (- 1)"
    using conjunct1 [OF t1] by (simp add: grid_map_def)
  have b: "\<exists>mp1. Map_set_value grid_map (PyInt (- 4000)) (PyInt 4000) 50 = Inr mp1 \<and> mp1 = grid_map"
    using conjunct1 [OF conjunct2 [OF t1]] by (simp add: grid_map_def)
  have c: "\<exists>fd1. Food_bite grid_food (PyInt (- 4000)) (PyInt 4000) = Inr fd1 \<and> fd1 = grid_food"
    using conjunct1 [OF conjunct2 [OF conjunct2 [OF conjunct2 [OF conjunct2 [OF t1]]]]]
    by (simp add: grid_food_def)
  note rest1 = conjunct2 [OF conjunct2 [OF conjunct2 [OF conjunct2 [OF conjunct2 [OF conjunct2
      [OF t1]]]]]]
  have d: "Map_get_value grid_map (PyFloat (- (8001 / 2))) (PyFloat 1000000) = Inr (- 1) \<and>
           Map_set_value grid_map (PyFloat (- (8001 / 2))) (PyFloat 1000000) 50 = Inr grid_map"
    using conjunct1 [OF rest1] o1 by simp
  have e: "Map_get_weighted_direction grid_map (PyFloat (- (8001 / 2))) (PyFloat 1000000)
             = Inr (0, 0)"
    using conjunct1 [OF conjunct2 [OF rest1]] o3 by (simp add: filter_empty_conv)
  have f: "Food_get_value grid_food (PyFloat (- (8001 / 2))) (PyFloat 1000000) = Inr False \<and>
           Food_bite grid_food (PyFloat (- (8001 / 2))) (PyFloat 1000000) = Inr grid_food"
    using conjunct1 [OF conjunct2 [OF conjunct2 [OF rest1]]] o2 by simp
  have g: "Food_add_food grid_food (PyFloat 10) (PyInt 4000) = Inr grid_food"
    using conjunct2 [OF conjunct2 [OF conjunct2 [OF conjunct2 [OF conjunct2 [OF conjunct2
      [OF conjunct2 [OF conjunct2 [OF conjunct2 [OF t3]]]]]]]]] o4 by simp
  have "(0::int) \<le> 596 \<and> (0::int) \<le> 300 \<or> food_width grid_food \<le> 596 div 4
          \<or> food_height grid_food \<le> 300 div 4"
    by simp
  from mp [OF conjunct1 [OF conjunct2 [OF conjunct2 [OF conjunct2 [OF conjunct2 [OF conjunct2
      [OF t2]]]]]] this]
  obtain fd1 where fd1: "Food_add_food grid_food (PyInt 596) (PyInt 300) = Inr fd1"
    "\<forall>r c. food_vals fd1 r c
        = (food_vals grid_food r c
           \<or> (300 div 4 \<le> r \<and> r < min (300 div 4 + 5) (food_height grid_food)
               \<and> 596 div 4 \<le> c \<and> c < min (596 div 4 + 5) (food_width grid_food)))"
    by blast
  have h: "food_vals fd1 75 149 \<and> food_vals fd1 79 149 \<and> \<not> food_vals fd1 80 149
      \<and> \<not> food_vals fd1 75 148"
    using fd1(2) by (simp add: grid_food_def)
  show ?thesis using a b c d e f g h o1 o2 o3 o4 fd1(1) by simp
qed

section \<open>Decay of a map\<close>

lemma decay_unique:
  fixes y :: "real \<Rightarrow> real"
  assumes "\<And>t. (y has_real_derivative (- k * y t)) (at t)"
  shows "y T = y 0 * exp (- k * T)"
proof -
  define h where "h = (\<lambda>t. y t * exp (k * t))"
  have "(h has_real_derivative 0) (at t)" for t
    unfolding h_def
    by (rule derivative_eq_intros assms refl | simp)+
  then have "h T = h 0" using DERIV_isconst_all [of h T 0] by blast
  then have "y T * exp (k * T) = y 0" by (simp add: h_def)
  then have "y T = y 0 / exp (k * T)" by (simp add: eq_divide_eq)
  then show ?thesis by (simp add: exp_minus divide_inverse)
qed

lemma exact_on_decay:
  assumes "exact_on integrate (dP_dt k)"
  shows "integrate (dP_dt k) y0 T = (\<lambda>i. y0 i * exp (- k * T))"
proof -
  define Y where "Y = (\<lambda>s i. y0 i * exp (- k * s))"
  have d: "((\<lambda>s. Y s i) has_real_derivative dP_dt k t (Y t) i) (at t)" for t i
    unfolding Y_def dP_dt_def
    by (rule derivative_eq_intros refl | simp)+
  have "Y 0 = y0" by (simp add: Y_def)
  then have "integrate (dP_dt k) y0 T = Y T"
    using assms d unfolding exact_on_def by blast
  then show ?thesis by (simp add: Y_def)
qed

lemma closed_form_exact: "exact_on closed_form (dP_dt k)"
  unfolding exact_on_def
proof (intro allI impI)
  fix Y :: "real \<Rightarrow> 'a \<Rightarrow> real" and y0 T
  assume a: "Y 0 = y0 \<and> (\<forall>t i. ((\<lambda>s. Y s i) has_real_derivative dP_dt k t (Y t) i) (at t))"
  have "Y T i = Y 0 i * exp (- k * T)" for i
    using a decay_unique [of "\<lambda>s. Y s i" k T] by (simp add: dP_dt_def)
  then show "closed_form (dP_dt k) y0 T = Y T"
    using a by (auto simp: closed_form_def dP_dt_def mult.commute)
qed

lemma Map_step_vals:
  assumes "exact_on integrate (dP_dt (- ln (evaporation_rate mp)))"
  shows "map_vals (Map_step integrate mp dt) r c
           = map_vals mp r c * exp (- (- ln (evaporation_rate mp)) * dt)"
  by (simp add: Map_step_def Let_def exact_on_decay [OF assms])

section \<open>Writes to a map\<close>

lemma Map_set_value_mono:
  assumes "Map_set_value mp (PyInt x) (PyInt y) val = Inr mp1"
  shows "map_vals mp r c \<le> map_vals mp1 r c"
proof -
  have "mp1 = (if 0 \<le> x div 4 \<and> x div 4 < map_width mp \<and> 0 \<le> y div 4 \<and> y div 4 < map_height mp
             \<and> val > map_vals mp (y div 4) (x div 4)
          then mp\<lparr>map_vals := (map_vals mp)(y div 4 := (map_vals mp (y div 4))(x div 4 := val))\<rparr>
          else mp)"
    using assms unfolding Map_set_value_int by simp
  then show ?thesis by (simp split: if_splits)
qed

lemma Map_set_value_rate:
  assumes "Map_set_value mp (PyInt x) (PyInt y) val = Inr mp1"
  shows "evaporation_rate mp1 = evaporation_rate mp"
  using assms unfolding Map_set_value_int by (auto split: if_splits)

lemma Map_writes_total:
  "\<exists>mp1. Map_writes mp ws = Inr mp1 \<and> evaporation_rate mp1 = evaporation_rate mp
         \<and> (\<forall>r c. map_vals mp r c \<le> map_vals mp1 r c)"
proof (induction ws arbitrary: mp)
  case Nil
  then show ?case by (simp add: Map_writes_def)
next
  case (Cons w ws)
  obtain x y val where w: "w = (x, y, val)" by (cases w)
  obtain m1 where m1: "Map_set_value mp (PyInt x) (PyInt y) val = Inr m1"
    unfolding Map_set_value_int by simp
  obtain m2 where m2: "Map_writes m1 ws = Inr m2" "evaporation_rate m2 = evaporation_rate m1"
    "\<forall>r c. map_vals m1 r c \<le> map_vals m2 r c"
    using Cons.IH [of m1] by blast
  have "Map_writes mp (w # ws) = Inr m2"
    using m1 m2(1) by (simp add: Map_writes_def w)
  moreover have "map_vals mp r c \<le> map_vals m2 r c" for r c
    using Map_set_value_mono [OF m1, of r c] m2(3) by (meson order_trans)
  ultimately show ?case using m2(2) Map_set_value_rate [OF m1] by simp
qed

lemma decay_le:
  assumes "0 \<le> (v::real)" and "0 < rate" and "rate \<le> 1" and "0 < dt"
  shows "v * exp (- (- ln rate) * dt) \<le> v" and "0 \<le> v * exp (- (- ln rate) * dt)"
proof -
  have "ln rate \<le> 0" using assms(2,3) by simp
  then have "ln rate * dt \<le> 0" using assms(4) by (simp add: mult_le_0_iff)
  then have "exp (- (- ln rate) * dt) \<le> 1" by simp
  then show "v * exp (- (- ln rate) * dt) \<le> v"
    using assms(1) mult_left_le by blast
  show "0 \<le> v * exp (- (- ln rate) * dt)" using assms(1) by simp
qed

text \<open>
  C7. A write at integer coordinates returns a map in which no cell is lower: the cell is
  replaced when it is in the grid and the new value exceeds it, and nothing changes
  otherwise. On a map with no negative cell and a rate in \<open>(0, 1]\<close>, after any
  sequence of writes a step with \<open>dt > 0\<close> (exact integrator) leaves every cell at most
  at its value before the step, and not negative.
\<close>

theorem field_write_monotone:
  "(\<exists>mp1. Map_set_value mp (PyInt x) (PyInt y) val = Inr mp1 \<and>
      mp1 = (if 0 \<le> x div 4 \<and> x div 4 < map_width mp \<and> 0 \<le> y div 4 \<and> y div 4 < map_height mp
                \<and> val > map_vals mp (y div 4) (x div 4)
             then mp\<lparr>map_vals := (map_vals mp)(y div 4 := (map_vals mp (y div 4))(x div 4 := val))\<rparr>
             else mp) \<and>
      (\<forall>r c. map_vals mp r c \<le> map_vals mp1 r c)) \<and>
   ((\<forall>r c. 0 \<le> map_vals mp r c) \<and> 0 < evaporation_rate mp \<and> evaporation_rate mp \<le> 1 \<and>
    exact_on integrate (dP_dt (- ln (evaporation_rate mp))) \<and> 0 < dt \<longrightarrow>
      (\<exists>mp1. Map_writes mp ws = Inr mp1 \<and>
         (\<forall>r c. map_vals (Map_step integrate mp1 dt) r c \<le> map_vals mp1 r c \<and>
                0 \<le> map_vals (Map_step integrate mp1 dt) r c)))"
proof (intro conjI impI)
  obtain m1 where m1: "Map_set_value mp (PyInt x) (PyInt y) val = Inr m1"
    unfolding Map_set_value_int by simp
  show "\<exists>mp1. Map_set_value mp (PyInt x) (PyInt y) val = Inr mp1 \<and>
      mp1 = (if 0 \<le> x div 4 \<and> x div 4 < map_width mp \<and> 0 \<le> y div 4 \<and> y div 4 < map_height mp
                \<and> val > map_vals mp (y div 4) (x div 4)
             then mp\<lparr>map_vals := (map_vals mp)(y div 4 := (map_vals mp (y div 4))(x div 4 := val))\<rparr>
             else mp) \<and>
      (\<forall>r c. map_vals mp r c \<le> map_vals mp1 r c)"
    using m1 Map_set_value_mono [OF m1] unfolding Map_set_value_int by auto
next
  assume a: "(\<forall>r c. 0 \<le> map_vals mp r c) \<and> 0 < evaporation_rate mp \<and> evaporation_rate mp \<le> 1 \<and>
    exact_on integrate (dP_dt (- ln (evaporation_rate mp))) \<and> 0 < dt"
  obtain m1 where m1: "Map_writes mp ws = Inr m1" "evaporation_rate m1 = evaporation_rate mp"
    "\<forall>r c. map_vals mp r c \<le> map_vals m1 r c"
    using Map_writes_total [of mp ws] by blast
  have e: "exact_on integrate (dP_dt (- ln (evaporation_rate m1)))" using a m1(2) by simp
  have nn: "0 \<le> map_vals m1 r c" for r c
    using a m1(3) by (meson order_trans)
  have "map_vals (Map_step integrate m1 dt) r c \<le> map_vals m1 r c \<and>
        0 \<le> map_vals (Map_step integrate m1 dt) r c" for r c
    using decay_le [OF nn [of r c], of "evaporation_rate mp" dt] a
    by (simp add: Map_step_vals [OF e] m1(2))
  then show "\<exists>mp1. Map_writes mp ws = Inr mp1 \<and>
         (\<forall>r c. map_vals (Map_step integrate mp1 dt) r c \<le> map_vals mp1 r c \<and>
                0 \<le> map_vals (Map_step integrate mp1 dt) r c)"
    using m1(1) by blast
qed

theorem field_write_monotone_witness:
  "(\<forall>r c. 0 \<le> map_vals mp8 r c) \<and> 0 < evaporation_rate mp8 \<and> evaporation_rate mp8 \<le> 1 \<and>
   exact_on closed_form (dP_dt (- ln (evaporation_rate mp8))) \<and> (0::real) < 1 \<and>
   (\<exists>mp1. Map_writes mp8 [(0, 0, 10), (4, 4, 3)] = Inr mp1 \<and>
      map_vals mp1 0 0 = 10 \<and> map_vals mp1 1 1 = 8 \<and>
      map_vals (Map_step closed_form mp1 1) 0 0 \<le> map_vals mp1 0 0)"
proof -
  have e: "exact_on closed_form (dP_dt (- ln (evaporation_rate mp8)))" by (rule closed_form_exact)
  have h: "(\<forall>r c. 0 \<le> map_vals mp8 r c) \<and> 0 < evaporation_rate mp8 \<and> evaporation_rate mp8 \<le> 1"
    by (simp add: mp8_def)
  have w: "Map_writes mp8 [(0, 0, 10), (4, 4, 3)]
             = Inr (mp8\<lparr>map_vals := (map_vals mp8)(0 := (map_vals mp8 0)(0 := 10))\<rparr>)"
    by (simp add: Map_writes_def Map_set_value_int mp8_def)
  have "\<exists>mp1. Map_writes mp8 [(0, 0, 10), (4, 4, 3)] = Inr mp1 \<and>
         (\<forall>r c. map_vals (Map_step closed_form mp1 1) r c \<le> map_vals mp1 r c \<and>
                0 \<le> map_vals (Map_step closed_form mp1 1) r c)"
    by (rule mp [OF conjunct2 [OF field_write_monotone
            [of mp8 0 0 10 closed_form 1 "[(0, 0, 10), (4, 4, 3)]"]]]) (simp add: e h)
  then have "map_vals (Map_step closed_form
                 (mp8\<lparr>map_vals := (map_vals mp8)(0 := (map_vals mp8 0)(0 := 10))\<rparr>) 1) 0 0
               \<le> map_vals (mp8\<lparr>map_vals := (map_vals mp8)(0 := (map_vals mp8 0)(0 := 10))\<rparr>) 0 0"
    unfolding w by blast
  moreover have "map_vals (mp8\<lparr>map_vals := (map_vals mp8)(0 := (map_vals mp8 0)(0 := 10))\<rparr>) 0 0 = 10"
    "map_vals (mp8\<lparr>map_vals := (map_vals mp8)(0 := (map_vals mp8 0)(0 := 10))\<rparr>) 1 1 = 8"
    by (simp_all add: mp8_def)
  ultimately show ?thesis using e h w by simp
qed

section \<open>The agent's step\<close>

lemma nudge_dx_fields:
  assumes "nudge_dx g ant dt = Inr (a, g1)"
  shows "ant_x a = ant_x ant \<and> ant_y a = ant_y ant \<and> int_x a = int_x ant \<and> int_y a = int_y ant \<and>
         last_x a = last_x ant \<and> last_y a = last_y ant \<and> has_food a = has_food ant \<and>
         home_pher a = home_pher ant \<and> food_pher a = food_pher ant \<and>
         use_rate a = use_rate ant \<and> wander_chance a = wander_chance ant"
proof -
  obtain r h where r: "rng_random g = (r, h)" by (cases "rng_random g")
  show ?thesis
  proof (cases "r > wander_chance ant")
    case True
    then obtain z where "a = ant\<lparr>ant_dx := ant_dx ant + z * dt\<rparr>"
      using assms by (auto simp: nudge_dx_def r split: sum.splits)
    then show ?thesis by simp
  next
    case False
    then have "a = ant" using assms by (simp add: nudge_dx_def r)
    then show ?thesis by simp
  qed
qed

lemma nudge_dy_fields:
  assumes "nudge_dy g ant dt = Inr (a, g1)"
  shows "ant_x a = ant_x ant \<and> ant_y a = ant_y ant \<and> int_x a = int_x ant \<and> int_y a = int_y ant \<and>
         last_x a = last_x ant \<and> last_y a = last_y ant \<and> has_food a = has_food ant \<and>
         home_pher a = home_pher ant \<and> food_pher a = food_pher ant \<and>
         use_rate a = use_rate ant \<and> wander_chance a = wander_chance ant"
proof -
  obtain r h where r: "rng_random g = (r, h)" by (cases "rng_random g")
  show ?thesis
  proof (cases "r > wander_chance ant")
    case True
    then obtain z where "a = ant\<lparr>ant_dy := ant_dy ant + z * dt\<rparr>"
      using assms by (auto simp: nudge_dy_def r split: sum.splits)
    then show ?thesis by simp
  next
    case False
    then have "a = ant" using assms by (simp add: nudge_dy_def r)
    then show ?thesis by simp
  qed
qed

lemma idle_burst_fields:
  assumes "idle_burst g ant = (a, g1)"
  shows "ant_x a = ant_x ant \<and> ant_y a = ant_y ant \<and> int_x a = int_x ant \<and> int_y a = int_y ant \<and>
         last_x a = last_x ant \<and> last_y a = last_y ant \<and> has_food a = has_food ant \<and>
         home_pher a = home_pher ant \<and> food_pher a = food_pher ant \<and>
         use_rate a = use_rate ant \<and> wander_chance a = wander_chance ant"
proof -
  obtain r h where r: "rng_random g = (r, h)" by (cases "rng_random g")
  obtain k h2 where k: "rng_randint h 0 15 = (k, h2)" by (cases "rng_randint h 0 15")
  have "a = ant\<lparr>bored := bored ant + k\<rparr> \<or> a = ant"
    using assms by (auto simp: idle_burst_def r k split: if_splits)
  then show ?thesis by auto
qed

lemma step_wander_fields:
  assumes "step_wander g ant dt = Inr (a, g1)"
  shows "ant_x a = ant_x ant \<and> ant_y a = ant_y ant \<and> int_x a = int_x ant \<and> int_y a = int_y ant \<and>
         last_x a = last_x ant \<and> last_y a = last_y ant \<and> has_food a = has_food ant \<and>
         home_pher a = home_pher ant \<and> food_pher a = food_pher ant \<and>
         use_rate a = use_rate ant \<and> wander_chance a = wander_chance ant"
proof -
  from assms obtain b1 h1 b2 h2 where
    x: "nudge_dx g ant dt = Inr (b1, h1)" and y: "nudge_dy h1 b1 dt = Inr (b2, h2)"
    and z: "idle_burst h2 b2 = (a, g1)"
    by (auto simp: step_wander_def split: sum.splits)
  show ?thesis
    using nudge_dx_fields [OF x] nudge_dy_fields [OF y] idle_burst_fields [OF z] by simp
qed

lemma steer_by_fields:
  assumes "steer_by g ant mp dt = Inr (a, g1)"
  shows "ant_x a = ant_x ant \<and> ant_y a = ant_y ant \<and> int_x a = int_x ant \<and> int_y a = int_y ant \<and>
         last_x a = last_x ant \<and> last_y a = last_y ant \<and> has_food a = has_food ant \<and>
         home_pher a = home_pher ant \<and> food_pher a = food_pher ant \<and>
         use_rate a = use_rate ant \<and> wander_chance a = wander_chance ant"
proof -
  obtain d0 d1 where d: "Map_get_weighted_direction mp (PyInt (int_x ant)) (PyInt (int_y ant))
                           = Inr (d0, d1)"
    using assms by (auto simp: steer_by_def split: sum.splits)
  obtain u1 h1 where u1: "rng_uniform g 0 (3 / 2) = (u1, h1)" by (cases "rng_uniform g 0 (3 / 2)")
  obtain u2 h2 where u2: "rng_uniform h1 0 (3 / 2) = (u2, h2)" by (cases "rng_uniform h1 0 (3 / 2)")
  have "a = ant\<lparr>ant_dx := ant_dx ant + d0 * u1 * dt, ant_dy := ant_dy ant + d1 * u2 * dt\<rparr>"
    using assms by (simp add: steer_by_def d u1 u2)
  then show ?thesis by simp
qed

lemma step_steer_fields:
  assumes "step_steer g ant hm fm dt = Inr (a, g1)"
  shows "ant_x a = ant_x ant \<and> ant_y a = ant_y ant \<and> int_x a = int_x ant \<and> int_y a = int_y ant \<and>
         last_x a = last_x ant \<and> last_y a = last_y ant \<and> has_food a = has_food ant \<and>
         home_pher a = home_pher ant \<and> food_pher a = food_pher ant \<and>
         use_rate a = use_rate ant \<and> wander_chance a = wander_chance ant"
proof (cases "bored ant > 0")
  case True
  then show ?thesis using assms by (auto simp: step_steer_def)
next
  case False
  then have "steer_by g ant (if has_food ant then hm else fm) dt = Inr (a, g1)"
    using assms by (simp add: step_steer_def split: if_splits)
  then show ?thesis by (rule steer_by_fields)
qed

lemma step_boundary_fields:
  "ant_x (step_boundary a) = ant_x a \<and> ant_y (step_boundary a) = ant_y a \<and>
   int_x (step_boundary a) = int_x a \<and> int_y (step_boundary a) = int_y a \<and>
   last_x (step_boundary a) = last_x a \<and> last_y (step_boundary a) = last_y a \<and>
   has_food (step_boundary a) = has_food a \<and> home_pher (step_boundary a) = home_pher a \<and>
   food_pher (step_boundary a) = food_pher a \<and> use_rate (step_boundary a) = use_rate a \<and>
   wander_chance (step_boundary a) = wander_chance a \<and> bored (step_boundary a) = bored a"
  by (simp add: step_boundary_def)

lemma step_clamp_fields:
  "ant_x (step_clamp a) = ant_x a \<and> ant_y (step_clamp a) = ant_y a \<and>
   int_x (step_clamp a) = int_x a \<and> int_y (step_clamp a) = int_y a \<and>
   last_x (step_clamp a) = last_x a \<and> last_y (step_clamp a) = last_y a \<and>
   has_food (step_clamp a) = has_food a \<and> home_pher (step_clamp a) = home_pher a \<and>
   food_pher (step_clamp a) = food_pher a \<and> use_rate (step_clamp a) = use_rate a \<and>
   wander_chance (step_clamp a) = wander_chance a \<and> bored (step_clamp a) = bored a"
  by (simp add: step_clamp_def)

lemma step_clamp_range:
  "- 1 \<le> ant_dx (step_clamp a) \<and> ant_dx (step_clamp a) \<le> 1 \<and>
   - 1 \<le> ant_dy (step_clamp a) \<and> ant_dy (step_clamp a) \<le> 1"
  by (simp add: step_clamp_def)

lemma step_position_fields:
  "ant_dx (step_position a dt) = ant_dx a \<and> ant_dy (step_position a dt) = ant_dy a \<and>
   ant_x (step_position a dt) = ant_x a + ant_dx a * dt \<and>
   ant_y (step_position a dt) = ant_y a + ant_dy a * dt \<and>
   int_x (step_position a dt) = py_int (ant_x a + ant_dx a * dt) \<and>
   int_y (step_position a dt) = py_int (ant_y a + ant_dy a * dt) \<and>
   last_x (step_position a dt) = last_x a \<and> last_y (step_position a dt) = last_y a \<and>
   has_food (step_position a dt) = has_food a \<and> home_pher (step_position a dt) = home_pher a \<and>
   food_pher (step_position a dt) = food_pher a \<and> use_rate (step_position a dt) = use_rate a \<and>
   wander_chance (step_position a dt) = wander_chance a \<and> bored (step_position a dt) = bored a"
  by (simp add: step_position_def)

lemma step_move_fields:
  "last_x (step_move a dt) = last_x a \<and> last_y (step_move a dt) = last_y a \<and>
   has_food (step_move a dt) = has_food a \<and> home_pher (step_move a dt) = home_pher a \<and>
   food_pher (step_move a dt) = food_pher a \<and> use_rate (step_move a dt) = use_rate a \<and>
   wander_chance (step_move a dt) = wander_chance a \<and> bored (step_move a dt) = bored a"
  by (simp add: step_move_def step_position_fields step_clamp_fields step_boundary_fields)

lemma step_move_clamp:
  "- 1 \<le> ant_dx (step_move a dt) \<and> ant_dx (step_move a dt) \<le> 1 \<and>
   - 1 \<le> ant_dy (step_move a dt) \<and> ant_dy (step_move a dt) \<le> 1"
  using step_clamp_range [of "step_boundary a"]
  by (simp add: step_move_def step_position_fields)

lemma step_move_pos:
  "ant_x (step_move a dt) = ant_x a + ant_dx (step_move a dt) * dt \<and>
   ant_y (step_move a dt) = ant_y a + ant_dy (step_move a dt) * dt \<and>
   int_x (step_move a dt) = py_int (ant_x (step_move a dt)) \<and>
   int_y (step_move a dt) = py_int (ant_y (step_move a dt))"
  by (simp add: step_move_def step_position_fields step_clamp_fields step_boundary_fields)

lemma Map_set_value_int_total: "\<exists>mp1. Map_set_value mp (PyInt x) (PyInt y) val = Inr mp1"
  unfolding Map_set_value_int by simp

lemma step_deposit_fields:
  assumes "step_deposit a hm fm = Inr (a1, hm1, fm1)"
  shows "ant_dx a1 = ant_dx a \<and> ant_dy a1 = ant_dy a \<and> ant_x a1 = ant_x a \<and> ant_y a1 = ant_y a \<and>
         int_x a1 = int_x a \<and> int_y a1 = int_y a \<and> has_food a1 = has_food a \<and>
         use_rate a1 = use_rate a \<and> wander_chance a1 = wander_chance a \<and> bored a1 = bored a \<and>
         last_x a1 = int_x a \<and> last_y a1 = int_y a"
  using assms
  by (auto simp: step_deposit_def Let_def split: sum.splits if_splits)

lemma step_deposit_same:
  assumes "step_deposit a hm fm = Inr (a1, hm1, fm1)"
    and "last_x a = int_x a" and "last_y a = int_y a"
  shows "home_pher a1 = home_pher a \<and> food_pher a1 = food_pher a \<and> hm1 = hm \<and> fm1 = fm"
  using assms by (auto simp: step_deposit_def)

lemma step_deposit_food:
  assumes "step_deposit a hm fm = Inr (a1, hm1, fm1)"
    and "last_x a \<noteq> int_x a \<or> last_y a \<noteq> int_y a" and "has_food a"
  shows "food_pher a1 = food_pher a * use_rate a \<and> home_pher a1 = home_pher a \<and> hm1 = hm \<and>
         Map_set_value fm (PyInt (int_x a)) (PyInt (int_y a)) (food_pher a * use_rate a) = Inr fm1"
  using assms by (auto simp: step_deposit_def Let_def split: sum.splits)

lemma step_deposit_home:
  assumes "step_deposit a hm fm = Inr (a1, hm1, fm1)"
    and "last_x a \<noteq> int_x a \<or> last_y a \<noteq> int_y a" and "\<not> has_food a"
  shows "home_pher a1 = home_pher a * use_rate a \<and> food_pher a1 = food_pher a \<and> fm1 = fm \<and>
         Map_set_value hm (PyInt (int_x a)) (PyInt (int_y a)) (home_pher a * use_rate a) = Inr hm1"
  using assms by (auto simp: step_deposit_def Let_def split: sum.splits)

text \<open>The phases of a step that returned.\<close>

lemma Ant_step_phases:
  assumes "Ant_step g ant hm fm dt = Inr (a3, hm1, fm1, g2)"
  obtains a1 g1 a2 where "step_wander g ant dt = Inr (a1, g1)"
    and "step_steer g1 a1 hm fm dt = Inr (a2, g2)"
    and "step_deposit (step_move a2 dt) hm fm = Inr (a3, hm1, fm1)"
  using assms by (auto simp: Ant_step_def split: sum.splits)

lemma direction_body_zero:
  assumes "\<And>r c. map_vals mp r c = 0"
  shows "direction_body mp (PyInt gx) (PyInt gy) d (0, 0, 0) = Inr (0, 0, 0)"
  by (cases d) (simp add: direction_body_def in_range_int np_get_int assms)

lemma zero_map_direction:
  assumes "\<And>r c. map_vals mp r c = 0"
  shows "Map_get_weighted_direction mp (PyInt x) (PyInt y) = Inr (0, 0)"
  by (simp add: Map_get_weighted_direction_def fold_err_fixed direction_body_zero assms)

lemma grid_direction: "Map_get_weighted_direction grid_map (PyInt x) (PyInt y) = Inr (0, 0)"
  by (rule zero_map_direction) (simp add: grid_map_def)

lemma ant_c3_wander:
  "step_wander rng1 ant_c3 (9 / 20) = Inr (ant_c3, rng1\<lparr>rng_state := 1622650073\<rparr>)"
  by (simp add: step_wander_def nudge_dx_def nudge_dy_def idle_burst_def rng1_def
      ManualRNG_init_def rng_random_def ant_c3_def)

lemma ant_c3_steer:
  "step_steer (rng1\<lparr>rng_state := 1622650073\<rparr>) ant_c3 grid_map grid_map (9 / 20)
     = Inr (ant_c3, rng1\<lparr>rng_state := 1144108930\<rparr>)"
  by (simp add: step_steer_def steer_by_def grid_direction)
     (simp add: rng1_def ManualRNG_init_def rng_random_def rng_uniform_def ant_c3_def)

lemma ant_c3_move:
  "step_move ant_c3 (9 / 20) = ant_c3\<lparr>ant_x := 6027 / 20, int_x := 301\<rparr>"
  by (simp add: step_move_def step_boundary_def step_clamp_def step_position_def ant_c3_def
      py_int_def)

lemma ant_c3_deposit:
  "step_deposit (ant_c3\<lparr>ant_x := 6027 / 20, int_x := 301\<rparr>) grid_map grid_map
     = Inr (ant_c3\<lparr>ant_x := 6027 / 20, int_x := 301, home_pher := 199 / 2, last_x := 301\<rparr>,
            grid_map\<lparr>map_vals := (map_vals grid_map)(50 := (map_vals grid_map 50)(75 := 199 / 2))\<rparr>,
            grid_map)"
  by (simp add: step_deposit_def Map_set_value_int) (simp add: ant_c3_def grid_map_def)

lemma ant_c3_step:
  "Ant_step rng1 ant_c3 grid_map grid_map (9 / 20)
     = Inr (ant_c3\<lparr>ant_x := 6027 / 20, int_x := 301, home_pher := 199 / 2, last_x := 301\<rparr>,
            grid_map\<lparr>map_vals := (map_vals grid_map)(50 := (map_vals grid_map 50)(75 := 199 / 2))\<rparr>,
            grid_map, rng1\<lparr>rng_state := 1144108930\<rparr>)"
  by (simp only: Ant_step_def ant_c3_wander ant_c3_steer ant_c3_move ant_c3_deposit
      sum.case prod.case)

lemma Ant_init_fields:
  assumes "Ant_init g x y = Inr (a, g1)"
  shows "use_rate a = 995 / 1000 \<and> home_pher a = 100 \<and> food_pher a = 100 \<and> \<not> has_food a \<and>
         last_x a = x \<and> last_y a = y \<and> int_x a = x \<and> int_y a = y"
  using assms by (auto simp: Ant_init_def split: sum.splits)

text \<open>
  C3 fails as stated. The agent of \<open>ant_c3\<close> moves from x = 300.9 to x = 301.35: its
  integer position changes from 300 to 301 while its grid cell (75, 50) stays the same, and
  the step deposits. The value written is 99.5, the home scent 100 already multiplied by
  the use rate, not the scent the agent had when the step began.
\<close>

theorem deposit_counterexample:
  "Ant_step rng1 ant_c3 grid_map grid_map (9 / 20)
     = Inr (ant_c3\<lparr>ant_x := 6027 / 20, int_x := 301, home_pher := 199 / 2, last_x := 301\<rparr>,
            grid_map\<lparr>map_vals := (map_vals grid_map)(50 := (map_vals grid_map 50)(75 := 199 / 2))\<rparr>,
            grid_map, rng1\<lparr>rng_state := 1144108930\<rparr>) \<and>
   last_x ant_c3 div 4 = 301 div 4 \<and> last_y ant_c3 div 4 = int_y ant_c3 div 4 \<and>
   home_pher ant_c3 = 100 \<and> map_vals grid_map 50 75 = 0 \<and>
   map_vals (grid_map\<lparr>map_vals := (map_vals grid_map)(50 := (map_vals grid_map 50)(75 := 199 / 2))\<rparr>)
     50 75 = 199 / 2"
  using ant_c3_step by (simp add: ant_c3_def grid_map_def)

text \<open>
  C3, amended. A step that returns leaves the carrying state as it was and deposits if and
  only if the integer position \<open>(int_x, int_y)\<close> after the move differs from the one
  stored at the previous step; a change of the grid cell is such a change. When it
  deposits, the scent of the carrying state (\<open>food_pher\<close> when carrying food,
  \<open>home_pher\<close> otherwise) is first multiplied by the use rate and the product is then
  written, by \<^verbatim>\<open>set_value\<close>, to the map of the same name at the new position; the
  other scent and the other map are untouched. Otherwise no scent and no map changes.
  The constructor sets the use rate to 0.995 and the step never changes it.
\<close>

theorem deposit_condition:
  "Ant_step g ant home_map food_map dt = Inr (a1, hm1, fm1, g1) \<Longrightarrow>
     has_food a1 = has_food ant \<and> use_rate a1 = use_rate ant \<and>
     int_x a1 = py_int (ant_x a1) \<and> int_y a1 = py_int (ant_y a1) \<and>
     last_x a1 = int_x a1 \<and> last_y a1 = int_y a1 \<and>
     (int_x a1 div 4 \<noteq> last_x ant div 4 \<or> int_y a1 div 4 \<noteq> last_y ant div 4
        \<longrightarrow> int_x a1 \<noteq> last_x ant \<or> int_y a1 \<noteq> last_y ant) \<and>
     ((int_x a1 \<noteq> last_x ant \<or> int_y a1 \<noteq> last_y ant) \<and> has_food ant \<longrightarrow>
        food_pher a1 = food_pher ant * use_rate ant \<and> home_pher a1 = home_pher ant \<and>
        hm1 = home_map \<and>
        Map_set_value food_map (PyInt (int_x a1)) (PyInt (int_y a1)) (food_pher a1) = Inr fm1) \<and>
     ((int_x a1 \<noteq> last_x ant \<or> int_y a1 \<noteq> last_y ant) \<and> \<not> has_food ant \<longrightarrow>
        home_pher a1 = home_pher ant * use_rate ant \<and> food_pher a1 = food_pher ant \<and>
        fm1 = food_map \<and>
        Map_set_value home_map (PyInt (int_x a1)) (PyInt (int_y a1)) (home_pher a1) = Inr hm1) \<and>
     (int_x a1 = last_x ant \<and> int_y a1 = last_y ant \<longrightarrow>
        home_pher a1 = home_pher ant \<and> food_pher a1 = food_pher ant \<and>
        hm1 = home_map \<and> fm1 = food_map)"
proof -
  assume st: "Ant_step g ant home_map food_map dt = Inr (a1, hm1, fm1, g1)"
  from st obtain b1 h1 b2 where
    w: "step_wander g ant dt = Inr (b1, h1)" and
    s: "step_steer h1 b1 home_map food_map dt = Inr (b2, g1)" and
    d: "step_deposit (step_move b2 dt) home_map food_map = Inr (a1, hm1, fm1)"
    by (rule Ant_step_phases)
  let ?m = "step_move b2 dt"
  note fw = step_wander_fields [OF w]
  note fs = step_steer_fields [OF s]
  note fm = step_move_fields [of b2 dt]
  note pm = step_move_pos [of b2 dt]
  note fd = step_deposit_fields [OF d]
  have m: "last_x ?m = last_x ant" "last_y ?m = last_y ant" "has_food ?m = has_food ant"
    "home_pher ?m = home_pher ant" "food_pher ?m = food_pher ant" "use_rate ?m = use_rate ant"
    using fw fs fm by simp_all
  have i: "int_x a1 = int_x ?m" "int_y a1 = int_y ?m" using fd by simp_all
  have p1: "has_food a1 = has_food ant \<and> use_rate a1 = use_rate ant \<and>
     int_x a1 = py_int (ant_x a1) \<and> int_y a1 = py_int (ant_y a1) \<and>
     last_x a1 = int_x a1 \<and> last_y a1 = int_y a1"
    using fd pm m by simp
  have p2: "int_x a1 div 4 \<noteq> last_x ant div 4 \<or> int_y a1 div 4 \<noteq> last_y ant div 4
        \<longrightarrow> int_x a1 \<noteq> last_x ant \<or> int_y a1 \<noteq> last_y ant"
    by auto
  have p3: "(int_x a1 \<noteq> last_x ant \<or> int_y a1 \<noteq> last_y ant) \<and> has_food ant \<longrightarrow>
        food_pher a1 = food_pher ant * use_rate ant \<and> home_pher a1 = home_pher ant \<and>
        hm1 = home_map \<and>
        Map_set_value food_map (PyInt (int_x a1)) (PyInt (int_y a1)) (food_pher a1) = Inr fm1"
  proof
    assume c: "(int_x a1 \<noteq> last_x ant \<or> int_y a1 \<noteq> last_y ant) \<and> has_food ant"
    then have "last_x ?m \<noteq> int_x ?m \<or> last_y ?m \<noteq> int_y ?m" "has_food ?m"
      using m i by auto
    from step_deposit_food [OF d this] show
      "food_pher a1 = food_pher ant * use_rate ant \<and> home_pher a1 = home_pher ant \<and>
        hm1 = home_map \<and>
        Map_set_value food_map (PyInt (int_x a1)) (PyInt (int_y a1)) (food_pher a1) = Inr fm1"
      using m i by simp
  qed
  have p4: "(int_x a1 \<noteq> last_x ant \<or> int_y a1 \<noteq> last_y ant) \<and> \<not> has_food ant \<longrightarrow>
        home_pher a1 = home_pher ant * use_rate ant \<and> food_pher a1 = food_pher ant \<and>
        fm1 = food_map \<and>
        Map_set_value home_map (PyInt (int_x a1)) (PyInt (int_y a1)) (home_pher a1) = Inr hm1"
  proof
    assume c: "(int_x a1 \<noteq> last_x ant \<or> int_y a1 \<noteq> last_y ant) \<and> \<not> has_food ant"
    then have "last_x ?m \<noteq> int_x ?m \<or> last_y ?m \<noteq> int_y ?m" "\<not> has_food ?m"
      using m i by auto
    from step_deposit_home [OF d this] show
      "home_pher a1 = home_pher ant * use_rate ant \<and> food_pher a1 = food_pher ant \<and>
        fm1 = food_map \<and>
        Map_set_value home_map (PyInt (int_x a1)) (PyInt (int_y a1)) (home_pher a1) = Inr hm1"
      using m i by simp
  qed
  have p5: "int_x a1 = last_x ant \<and> int_y a1 = last_y ant \<longrightarrow>
        home_pher a1 = home_pher ant \<and> food_pher a1 = food_pher ant \<and>
        hm1 = home_map \<and> fm1 = food_map"
  proof
    assume c: "int_x a1 = last_x ant \<and> int_y a1 = last_y ant"
    then have "last_x ?m = int_x ?m" "last_y ?m = int_y ?m" using m i by auto
    from step_deposit_same [OF d this] show
      "home_pher a1 = home_pher ant \<and> food_pher a1 = food_pher ant \<and>
        hm1 = home_map \<and> fm1 = food_map"
      using m by simp
  qed
  show ?thesis using p1 p2 p3 p4 p5 by blast
qed

theorem deposit_condition_witness:
  "Ant_step rng1 ant_c3 grid_map grid_map (9 / 20)
     = Inr (ant_c3\<lparr>ant_x := 6027 / 20, int_x := 301, home_pher := 199 / 2, last_x := 301\<rparr>,
            grid_map\<lparr>map_vals := (map_vals grid_map)(50 := (map_vals grid_map 50)(75 := 199 / 2))\<rparr>,
            grid_map, rng1\<lparr>rng_state := 1144108930\<rparr>) \<and>
   last_x ant_c3 = 300 \<and> has_food ant_c3 = False \<and>
   home_pher ant_c3 * use_rate ant_c3 = 199 / 2 \<and>
   Map_set_value grid_map (PyInt 301) (PyInt 200) (199 / 2)
     = Inr (grid_map\<lparr>map_vals := (map_vals grid_map)(50 := (map_vals grid_map 50)(75 := 199 / 2))\<rparr>)"
  using deposit_condition [OF ant_c3_step] by (simp add: ant_c3_step) (simp add: ant_c3_def)

section \<open>Velocities\<close>

lemma ant_A_step:
  "Ant_step rng1 ant_A grid_map grid_map (9 / 20)
     = Inr (ant_A1, home_A1, grid_map, rng1\<lparr>rng_state := 1144108930\<rparr>)"
proof -
  have w: "step_wander rng1 ant_A (9 / 20) = Inr (ant_A, rng1\<lparr>rng_state := 1622650073\<rparr>)"
    by (simp add: step_wander_def nudge_dx_def nudge_dy_def idle_burst_def rng1_def
        ManualRNG_init_def rng_random_def ant_A_def)
  have s: "step_steer (rng1\<lparr>rng_state := 1622650073\<rparr>) ant_A grid_map grid_map (9 / 20)
             = Inr (ant_A, rng1\<lparr>rng_state := 1144108930\<rparr>)"
    by (simp add: step_steer_def steer_by_def grid_direction)
       (simp add: rng1_def ManualRNG_init_def rng_random_def rng_uniform_def ant_A_def)
  have m: "step_move ant_A (9 / 20) = ant_A\<lparr>ant_x := 303, ant_y := 204, int_x := 303\<rparr>"
    by (simp add: step_move_def step_boundary_def step_clamp_def step_position_def ant_A_def
        py_int_def)
  have d: "step_deposit (ant_A\<lparr>ant_x := 303, ant_y := 204, int_x := 303\<rparr>) grid_map grid_map
             = Inr (ant_A1, home_A1, grid_map)"
    by (simp add: step_deposit_def Map_set_value_int)
       (simp add: ant_A_def ant_A1_def home_A1_def grid_map_def)
  show ?thesis
    by (simp only: Ant_step_def w s m d sum.case prod.case)
qed

lemma ant_B_step:
  "Ant_step (rng1\<lparr>rng_state := 1144108930\<rparr>) ant_B home_A1 grid_map (9 / 20)
     = Inr (ant_B1, home_B1, grid_map, rng1\<lparr>rng_state := 2007237709\<rparr>)"
proof -
  have w: "step_wander (rng1\<lparr>rng_state := 1144108930\<rparr>) ant_B (9 / 20)
             = Inr (ant_B, rng1\<lparr>rng_state := 1457850878\<rparr>)"
    by (simp add: step_wander_def nudge_dx_def nudge_dy_def idle_burst_def rng1_def
        ManualRNG_init_def rng_random_def ant_B_def)
  have s: "step_steer (rng1\<lparr>rng_state := 1457850878\<rparr>) ant_B home_A1 grid_map (9 / 20)
             = Inr (ant_B, rng1\<lparr>rng_state := 2007237709\<rparr>)"
    by (simp add: step_steer_def steer_by_def grid_direction)
       (simp add: rng1_def ManualRNG_init_def rng_random_def rng_uniform_def ant_B_def)
  have m: "step_move ant_B (9 / 20)
             = ant_B\<lparr>ant_x := 300, ant_y := 200, int_x := 300, int_y := 200\<rparr>"
    by (simp add: step_move_def step_boundary_def step_clamp_def step_position_def ant_B_def
        py_int_def)
  have d: "step_deposit (ant_B\<lparr>ant_x := 300, ant_y := 200, int_x := 300, int_y := 200\<rparr>)
             home_A1 grid_map = Inr (ant_B1, home_B1, grid_map)"
    by (simp add: step_deposit_def Map_set_value_int)
       (simp add: ant_B_def ant_B1_def home_A1_def home_B1_def grid_map_def)
  show ?thesis
    by (simp only: Ant_step_def w s m d sum.case prod.case)
qed

lemma no_food_no_pickup:
  assumes "\<not> has_food a"
  shows "nest_or_pickup cx cy a grid_food n = Inr (a, grid_food, n)"
  using assms by (simp add: nest_or_pickup_def Food_get_value_int grid_food_def)

lemma world_c4_update: "Colony_update world_c4 (9 / 20) = Inr world_c4_updated"
proof -
  have nf: "\<not> has_food ant_A1" "\<not> has_food ant_B1"
    by (simp_all add: ant_A1_def ant_B1_def ant_A_def ant_B_def)
  have "update_ants 300 200 (9 / 20) [ant_A, ant_B] rng1 grid_map grid_map grid_food 0
          = Inr ([ant_A1, ant_B1], rng1\<lparr>rng_state := 2007237709\<rparr>, home_B1, grid_map,
                 grid_food, 0)"
    by (simp add: ant_A_step ant_B_step no_food_no_pickup nf)
  then show ?thesis
    by (simp add: Colony_update_def world_c4_def world_c4_updated_def)
qed

lemma world_c4_collide:
  "resolve_pairs ([ant_A1, ant_B1], g)
     = ([ant_A1\<lparr>ant_x := 3039 / 10, ant_y := 1026 / 5, ant_dx := 43 / 25, ant_dy := - (1 / 25)\<rparr>,
         ant_B1\<lparr>ant_x := 2991 / 10, ant_y := 994 / 5, ant_dx := 7 / 25, ant_dy := 1 / 25\<rparr>], g)"
proof -
  have d: "sqrt ((303 - 300) * (303 - 300) + (204 - 200) * (204 - 200)) = (5::real)" by simp
  have c: "collide 0 (Suc 0) ([ant_A1, ant_B1], g)
     = ([ant_A1\<lparr>ant_x := 3039 / 10, ant_y := 1026 / 5, ant_dx := 43 / 25, ant_dy := - (1 / 25)\<rparr>,
         ant_B1\<lparr>ant_x := 2991 / 10, ant_y := 994 / 5, ant_dx := 7 / 25, ant_dy := 1 / 25\<rparr>], g)"
    by (simp add: collide_def ant_A1_def ant_B1_def ant_A_def ant_B_def Let_def)
  show ?thesis
    by (simp add: resolve_pairs_def numeral_2_eq_2 c)
qed

lemma Ant_step_velocity:
  assumes "Ant_step g ant hm fm dt = Inr (a1, hm1, fm1, g1)"
  shows "vel_clamped a1 \<and> ant_x a1 = ant_x ant + ant_dx a1 * dt \<and>
         ant_y a1 = ant_y ant + ant_dy a1 * dt"
proof -
  from assms obtain b1 h1 b2 where
    w: "step_wander g ant dt = Inr (b1, h1)" and
    s: "step_steer h1 b1 hm fm dt = Inr (b2, g1)" and
    d: "step_deposit (step_move b2 dt) hm fm = Inr (a1, hm1, fm1)"
    by (rule Ant_step_phases)
  have p: "ant_x b2 = ant_x ant" "ant_y b2 = ant_y ant"
    using step_wander_fields [OF w] step_steer_fields [OF s] by simp_all
  show ?thesis
    using step_deposit_fields [OF d] step_move_clamp [of b2 dt] step_move_pos [of b2 dt] p
    by (simp add: vel_clamped_def)
qed

lemma Ant_step_has_food:
  assumes "Ant_step g ant hm fm dt = Inr (a1, hm1, fm1, g1)"
  shows "has_food a1 = has_food ant"
proof -
  from assms obtain b1 h1 b2 where
    w: "step_wander g ant dt = Inr (b1, h1)" and
    s: "step_steer h1 b1 hm fm dt = Inr (b2, g1)" and
    d: "step_deposit (step_move b2 dt) hm fm = Inr (a1, hm1, fm1)"
    by (rule Ant_step_phases)
  show ?thesis
    using step_wander_fields [OF w] step_steer_fields [OF s] step_move_fields [of b2 dt]
      step_deposit_fields [OF d] by simp
qed

lemma nest_or_pickup_fields:
  assumes "nest_or_pickup cx cy a fd n = Inr (a1, fd1, n1)"
  shows "ant_dx a1 = ant_dx a \<and> ant_dy a1 = ant_dy a \<and> int_x a1 = int_x a \<and> int_y a1 = int_y a"
  using assms
  by (auto simp: nest_or_pickup_def Food_get_value_int Food_bite_int split: if_splits)

lemma nest_or_pickup_count:
  assumes "nest_or_pickup cx cy a fd n = Inr (a1, fd1, n1)"
  shows "n1 = n + (if has_food a \<and> \<bar>int_x a - cx\<bar> < 20 \<and> \<bar>int_y a - cy\<bar> < 20 then 1 else 0) \<and>
         (has_food a \<and> \<bar>int_x a - cx\<bar> < 20 \<and> \<bar>int_y a - cy\<bar> < 20
            \<longrightarrow> \<not> has_food a1 \<and> home_pher a1 = 100)"
  using assms
  by (auto simp: nest_or_pickup_def Food_get_value_int Food_bite_int split: if_splits)

lemma update_ants_clamped:
  assumes "update_ants cx cy dt as g hm fm fd n = Inr (as1, st)"
  shows "\<forall>a\<in>set as1. vel_clamped a"
  using assms
proof (induction as arbitrary: g hm fm fd n as1 st)
  case Nil
  then show ?case by simp
next
  case (Cons ant rest)
  from Cons.prems obtain a1 hm1 fm1 g1 a2 fd1 n1 rest1 where
    s: "Ant_step g ant hm fm dt = Inr (a1, hm1, fm1, g1)" and
    p: "nest_or_pickup cx cy a1 fd n = Inr (a2, fd1, n1)" and
    r: "update_ants cx cy dt rest g1 hm1 fm1 fd1 n1 = Inr (rest1, st)" and
    e: "as1 = a2 # rest1"
    by (auto split: sum.splits)
  have "vel_clamped a2"
    using Ant_step_velocity [OF s] nest_or_pickup_fields [OF p] by (simp add: vel_clamped_def)
  then show ?case using Cons.IH [OF r] e by simp
qed

lemma update_ants_count:
  assumes "update_ants cx cy dt as g hm fm fd n = Inr (as1, g1, hm1, fm1, fd1, n1)"
  shows "length as1 = length as \<and>
         n1 = n + int (length (filter (delivers cx cy) (zip as as1))) \<and>
         (\<forall>p\<in>set (zip as as1). delivers cx cy p \<longrightarrow> \<not> has_food (snd p) \<and> home_pher (snd p) = 100)"
  using assms
proof (induction as arbitrary: g hm fm fd n as1)
  case Nil
  then show ?case by simp
next
  case (Cons ant rest)
  from Cons.prems obtain a1 hm2 fm2 g2 a2 fd2 n2 rest1 where
    s: "Ant_step g ant hm fm dt = Inr (a1, hm2, fm2, g2)" and
    p: "nest_or_pickup cx cy a1 fd n = Inr (a2, fd2, n2)" and
    r: "update_ants cx cy dt rest g2 hm2 fm2 fd2 n2 = Inr (rest1, g1, hm1, fm1, fd1, n1)" and
    e: "as1 = a2 # rest1"
    by (auto split: sum.splits)
  note ih = Cons.IH [OF r]
  have hf: "has_food a1 = has_food ant" using Ant_step_has_food [OF s] .
  have pos: "int_x a2 = int_x a1" "int_y a2 = int_y a1"
    using nest_or_pickup_fields [OF p] by simp_all
  have d: "delivers cx cy (ant, a2)
             = (has_food a1 \<and> \<bar>int_x a1 - cx\<bar> < 20 \<and> \<bar>int_y a1 - cy\<bar> < 20)"
    by (simp add: delivers_def hf pos)
  note c = nest_or_pickup_count [OF p]
  have n2: "n2 = n + (if delivers cx cy (ant, a2) then 1 else 0)" using c d by simp
  have h: "delivers cx cy (ant, a2) \<longrightarrow> \<not> has_food a2 \<and> home_pher a2 = 100" using c d by simp
  show ?case using ih n2 h by (simp add: e)
qed

text \<open>
  C4 fails as stated. In the colony \<open>world_c4\<close> the update leaves both agents with
  velocities in range, five units apart on the normal (0.6, 0.8) and closing; the
  collision pass then adds the impulse 1.2 along the normal and the first agent ends the
  tick with \<open>dx = 1.72\<close>.
\<close>

theorem velocity_clamp_counterexample:
  "Colony_update world_c4 (9 / 20) = Inr world_c4_updated \<and>
   ant_dx (ants (sim_colony (Colony_resolve_collisions world_c4_updated)) ! 0) = 43 / 25 \<and>
   \<not> vel_clamped (ants (sim_colony (Colony_resolve_collisions world_c4_updated)) ! 0)"
  by (simp add: world_c4_update Colony_resolve_collisions_def world_c4_updated_def
      world_c4_collide vel_clamped_def)

text \<open>
  C4, amended. Both velocity components of an agent lie in \<open>[-1, 1]\<close> after its step,
  which moves the agent by exactly this clamped velocity times \<open>dt\<close>, and so for every
  agent after \<^verbatim>\<open>Colony.update\<close>. (The collision pass adds its impulse without a clamp;
  the next step clamps again before it moves the agent.)
\<close>

theorem velocity_clamp:
  "(Ant_step g ant hm fm dt = Inr (a1, hm1, fm1, g1) \<longrightarrow>
      vel_clamped a1 \<and> ant_x a1 = ant_x ant + ant_dx a1 * dt \<and>
      ant_y a1 = ant_y ant + ant_dy a1 * dt) \<and>
   (Colony_update w dt = Inr w1 \<longrightarrow> (\<forall>a\<in>set (ants (sim_colony w1)). vel_clamped a))"
proof (rule conjI; rule impI)
  assume "Ant_step g ant hm fm dt = Inr (a1, hm1, fm1, g1)"
  then show "vel_clamped a1 \<and> ant_x a1 = ant_x ant + ant_dx a1 * dt \<and>
      ant_y a1 = ant_y ant + ant_dy a1 * dt"
    by (rule Ant_step_velocity)
next
  assume "Colony_update w dt = Inr w1"
  then obtain as1 st where
    u: "update_ants (colony_x (sim_colony w)) (colony_y (sim_colony w)) dt (ants (sim_colony w))
          (sim_rng w) (sim_pher_home w) (sim_pher_food w) (sim_food w)
          (food_delivered (sim_colony w)) = Inr (as1, st)"
    and e: "ants (sim_colony w1) = as1"
    by (auto simp: Colony_update_def Let_def split: sum.splits)
  show "\<forall>a\<in>set (ants (sim_colony w1)). vel_clamped a"
    using update_ants_clamped [OF u] e by simp
qed

theorem velocity_clamp_witness:
  "Ant_step rng1 ant_A grid_map grid_map (9 / 20)
     = Inr (ant_A1, home_A1, grid_map, rng1\<lparr>rng_state := 1144108930\<rparr>) \<and>
   vel_clamped ant_A1 \<and> ant_x ant_A1 = ant_x ant_A + ant_dx ant_A1 * (9 / 20) \<and>
   Colony_update world_c4 (9 / 20) = Inr world_c4_updated \<and>
   ants (sim_colony world_c4_updated) = [ant_A1, ant_B1] \<and>
   vel_clamped ant_B1"
  using velocity_clamp [of rng1 ant_A grid_map grid_map "9 / 20" ant_A1 home_A1 grid_map
      "rng1\<lparr>rng_state := 1144108930\<rparr>" world_c4 world_c4_updated]
  by (simp add: ant_A_step world_c4_update) (simp add: world_c4_updated_def)

section \<open>Deliveries\<close>

lemma ant_D_step:
  "Ant_step rng1 ant_D grid_map grid_map (9 / 20)
     = Inr (ant_D1\<lparr>has_food := True\<rparr>, grid_map, food_D1, rng1\<lparr>rng_state := 1144108930\<rparr>)"
proof -
  have w: "step_wander rng1 ant_D (9 / 20) = Inr (ant_D, rng1\<lparr>rng_state := 1622650073\<rparr>)"
    by (simp add: step_wander_def nudge_dx_def nudge_dy_def idle_burst_def rng1_def
        ManualRNG_init_def rng_random_def ant_D_def ant_c3_def)
  have s: "step_steer (rng1\<lparr>rng_state := 1622650073\<rparr>) ant_D grid_map grid_map (9 / 20)
             = Inr (ant_D, rng1\<lparr>rng_state := 1144108930\<rparr>)"
    by (simp add: step_steer_def steer_by_def grid_direction)
       (simp add: rng1_def ManualRNG_init_def rng_random_def rng_uniform_def ant_D_def ant_c3_def)
  have m: "step_move ant_D (9 / 20) = ant_D\<lparr>ant_x := 6027 / 20, int_x := 301\<rparr>"
    by (simp add: step_move_def step_boundary_def step_clamp_def step_position_def ant_D_def
        ant_c3_def py_int_def)
  have d: "step_deposit (ant_D\<lparr>ant_x := 6027 / 20, int_x := 301\<rparr>) grid_map grid_map
             = Inr (ant_D1\<lparr>has_food := True\<rparr>, grid_map, food_D1)"
    by (simp add: step_deposit_def Map_set_value_int)
       (simp add: ant_D_def ant_D1_def ant_c3_def food_D1_def grid_map_def)
  show ?thesis
    by (simp only: Ant_step_def w s m d sum.case prod.case)
qed

lemma world_c8_update: "Colony_update world_c8 (9 / 20) = Inr world_c8_updated"
proof -
  have n: "nest_or_pickup 300 200 (ant_D1\<lparr>has_food := True\<rparr>) grid_food 0
             = Inr (ant_D1, grid_food, 1)"
    by (simp add: nest_or_pickup_def ant_D1_def ant_c3_def)
  have "update_ants 300 200 (9 / 20) [ant_D] rng1 grid_map grid_map grid_food 0
          = Inr ([ant_D1], rng1\<lparr>rng_state := 1144108930\<rparr>, grid_map, food_D1, grid_food, 1)"
    by (simp add: ant_D_step n)
  then show ?thesis
    by (simp add: Colony_update_def world_c8_def world_c8_updated_def)
qed

lemma Colony_update_count:
  assumes "Colony_update w dt = Inr w1"
  shows "length (ants (sim_colony w1)) = length (ants (sim_colony w)) \<and>
         food_delivered (sim_colony w1)
           = food_delivered (sim_colony w)
             + int (length (filter (delivers (colony_x (sim_colony w)) (colony_y (sim_colony w)))
                              (zip (ants (sim_colony w)) (ants (sim_colony w1))))) \<and>
         (\<forall>p\<in>set (zip (ants (sim_colony w)) (ants (sim_colony w1))).
            delivers (colony_x (sim_colony w)) (colony_y (sim_colony w)) p
              \<longrightarrow> \<not> has_food (snd p) \<and> home_pher (snd p) = 100)"
proof -
  from assms obtain as1 g1 hm1 fm1 fd1 n1 where
    u: "update_ants (colony_x (sim_colony w)) (colony_y (sim_colony w)) dt (ants (sim_colony w))
          (sim_rng w) (sim_pher_home w) (sim_pher_food w) (sim_food w)
          (food_delivered (sim_colony w)) = Inr (as1, g1, hm1, fm1, fd1, n1)"
    and e: "ants (sim_colony w1) = as1" "food_delivered (sim_colony w1) = n1"
    by (auto simp: Colony_update_def Let_def split: sum.splits)
  show ?thesis using update_ants_count [OF u] e by simp
qed

lemma Colony_update_mono:
  assumes "Colony_update w dt = Inr w1"
  shows "food_delivered (sim_colony w) \<le> food_delivered (sim_colony w1)"
  using Colony_update_count [OF assms] by simp

lemma resolve_food_delivered:
  "food_delivered (sim_colony (Colony_resolve_collisions w)) = food_delivered (sim_colony w)"
  by (simp add: Colony_resolve_collisions_def split: prod.splits)

lemma advance_tick_mono:
  assumes "advance_tick integrate w dt = Inr w1"
  shows "food_delivered (sim_colony w) \<le> food_delivered (sim_colony w1)"
proof -
  from assms obtain u where u: "Colony_update w dt = Inr u"
    and e: "food_delivered (sim_colony w1) = food_delivered (sim_colony (Colony_resolve_collisions u))"
    by (auto simp: advance_tick_def Let_def split: sum.splits)
  show ?thesis using Colony_update_mono [OF u] e by (simp add: resolve_food_delivered)
qed

lemma place_food_delivered:
  assumes "place_food w x y = Inr w1"
  shows "food_delivered (sim_colony w1) = food_delivered (sim_colony w)"
  using assms by (auto simp: place_food_def split: sum.splits)

lemma run_calls_mono:
  assumes "run_calls integrate cs w = Inr w1"
  shows "food_delivered (sim_colony w) \<le> food_delivered (sim_colony w1)"
  using assms
proof (induction cs arbitrary: w)
  case Nil
  then show ?case by simp
next
  case (Cons c cs)
  show ?case
  proof (cases c)
    case (AdvanceTick dt)
    with Cons.prems obtain u where u: "advance_tick integrate w dt = Inr u"
      and r: "run_calls integrate cs u = Inr w1"
      by (auto split: sum.splits)
    show ?thesis using advance_tick_mono [OF u] Cons.IH [OF r] by simp
  next
    case (PlaceFood x y)
    with Cons.prems obtain u where u: "place_food w x y = Inr u"
      and r: "run_calls integrate cs u = Inr w1"
      by (auto split: sum.splits)
    show ?thesis using place_food_delivered [OF u] Cons.IH [OF r] by simp
  qed
qed

text \<open>
  C8. An update that returns keeps the number of agents and raises \<open>food_delivered\<close> by
  exactly the number of agents that deliver in it, one for each; every such agent ends the
  update without food and with its home scent at 100. So the counter never decreases in an
  update, nor over any sequence of ticks and food placements.
\<close>

theorem delivery_count:
  "(Colony_update w dt = Inr w1 \<longrightarrow>
      length (ants (sim_colony w1)) = length (ants (sim_colony w)) \<and>
      food_delivered (sim_colony w1)
        = food_delivered (sim_colony w)
          + int (length (filter (delivers (colony_x (sim_colony w)) (colony_y (sim_colony w)))
                           (zip (ants (sim_colony w)) (ants (sim_colony w1))))) \<and>
      food_delivered (sim_colony w) \<le> food_delivered (sim_colony w1) \<and>
      (\<forall>p\<in>set (zip (ants (sim_colony w)) (ants (sim_colony w1))).
         delivers (colony_x (sim_colony w)) (colony_y (sim_colony w)) p
           \<longrightarrow> \<not> has_food (snd p) \<and> home_pher (snd p) = 100)) \<and>
   (run_calls integrate cs w = Inr w2 \<longrightarrow>
      food_delivered (sim_colony w) \<le> food_delivered (sim_colony w2))"
proof (rule conjI; rule impI)
  assume u: "Colony_update w dt = Inr w1"
  show "length (ants (sim_colony w1)) = length (ants (sim_colony w)) \<and>
      food_delivered (sim_colony w1)
        = food_delivered (sim_colony w)
          + int (length (filter (delivers (colony_x (sim_colony w)) (colony_y (sim_colony w)))
                           (zip (ants (sim_colony w)) (ants (sim_colony w1))))) \<and>
      food_delivered (sim_colony w) \<le> food_delivered (sim_colony w1) \<and>
      (\<forall>p\<in>set (zip (ants (sim_colony w)) (ants (sim_colony w1))).
         delivers (colony_x (sim_colony w)) (colony_y (sim_colony w)) p
           \<longrightarrow> \<not> has_food (snd p) \<and> home_pher (snd p) = 100)"
    using Colony_update_count [OF u] Colony_update_mono [OF u] by blast
next
  assume "run_calls integrate cs w = Inr w2"
  then show "food_delivered (sim_colony w) \<le> food_delivered (sim_colony w2)"
    by (rule run_calls_mono)
qed

theorem delivery_count_witness:
  "Colony_update world_c8 (9 / 20) = Inr world_c8_updated \<and>
   delivers 300 200 (ant_D, ant_D1) \<and>
   food_delivered (sim_colony world_c8) = 0 \<and>
   food_delivered (sim_colony world_c8_updated) = 1 \<and>
   \<not> has_food ant_D1 \<and> home_pher ant_D1 = 100 \<and>
   run_calls closed_form [AdvanceTick (9 / 20)] world_c8 = Inr world_c8_ticked \<and>
   food_delivered (sim_colony world_c8) \<le> food_delivered (sim_colony world_c8_ticked)"
proof -
  have r: "run_calls closed_form [AdvanceTick (9 / 20)] world_c8 = Inr world_c8_ticked"
    by (simp add: advance_tick_def world_c8_update world_c8_ticked_def Let_def)
  have f: "food_delivered (sim_colony world_c8) = 0"
    "food_delivered (sim_colony world_c8_updated) = 1"
    "ants (sim_colony world_c8) = [ant_D]" "ants (sim_colony world_c8_updated) = [ant_D1]"
    "colony_x (sim_colony world_c8) = 300" "colony_y (sim_colony world_c8) = 200"
    by (simp_all add: world_c8_def world_c8_updated_def)
  have d: "delivers 300 200 (ant_D, ant_D1)"
    by (simp add: delivers_def ant_D_def ant_D1_def ant_c3_def)
  note t = delivery_count [where w = world_c8 and dt = "9 / 20" and ?w1.0 = world_c8_updated
      and integrate = closed_form and cs = "[AdvanceTick (9 / 20)]" and ?w2.0 = world_c8_ticked]
  have "\<not> has_food ant_D1 \<and> home_pher ant_D1 = 100"
    using mp [OF conjunct1 [OF t] world_c8_update] d by (simp add: f)
  moreover have "food_delivered (sim_colony world_c8) \<le> food_delivered (sim_colony world_c8_ticked)"
    using mp [OF conjunct2 [OF t] r] .
  ultimately show ?thesis using world_c8_update d f r by blast
qed

section \<open>Overlapping agents\<close>

text \<open>
  \<^verbatim>\<open>resolve_collisions\<close> has no operation that can raise: the indices are below the
  length of the list, the division by \<open>dist\<close> is on the branch where it is not 0, and the
  modulus of the generator is never 0. Its model returns a value on every input.
\<close>

lemma collide_overlap:
  assumes "ant_x a = ant_x b" and "ant_y a = ant_y b"
    and "ant_dx a = 0" and "ant_dy a = 0" and "ant_dx b = 0" and "ant_dy b = 0"
    and "rng_uniform g 0 (2 * pi) = (angle, g1)"
  shows "resolve_pairs ([a, b], g)
           = ([a\<lparr>ant_x := ant_x a + (79 / 20) * cos angle, ant_y := ant_y a + (79 / 20) * sin angle\<rparr>,
               b\<lparr>ant_x := ant_x b - (79 / 20) * cos angle, ant_y := ant_y b - (79 / 20) * sin angle\<rparr>],
              g1)"
proof -
  have "collide 0 (Suc 0) ([a, b], g)
          = ([a\<lparr>ant_x := ant_x a + (79 / 20) * cos angle, ant_y := ant_y a + (79 / 20) * sin angle\<rparr>,
              b\<lparr>ant_x := ant_x b - (79 / 20) * cos angle, ant_y := ant_y b - (79 / 20) * sin angle\<rparr>],
             g1)"
    by (simp add: collide_def Let_def assms)
  then show ?thesis by (simp add: resolve_pairs_def numeral_2_eq_2)
qed

lemma overlap_distance:
  "sqrt ((x + (79 / 20) * c - (x - (79 / 20) * c)) * (x + (79 / 20) * c - (x - (79 / 20) * c))
         + (y + (79 / 20) * s - (y - (79 / 20) * s)) * (y + (79 / 20) * s - (y - (79 / 20) * s)))
     = (79 / 10) * sqrt (c * c + s * s)"
proof -
  have "(x + (79 / 20) * c - (x - (79 / 20) * c)) * (x + (79 / 20) * c - (x - (79 / 20) * c))
         + (y + (79 / 20) * s - (y - (79 / 20) * s)) * (y + (79 / 20) * s - (y - (79 / 20) * s))
          = (79 / 10)\<^sup>2 * (c * c + s * s)"
    by (simp add: power2_eq_square algebra_simps)
  then show ?thesis by (simp add: real_sqrt_mult)
qed

lemma overlap_result:
  assumes "ants (sim_colony w) = [a, b]" and "ant_x a = ant_x b" and "ant_y a = ant_y b"
    and "ant_dx a = 0" and "ant_dy a = 0" and "ant_dx b = 0" and "ant_dy b = 0"
  shows "ants (sim_colony (Colony_resolve_collisions w))
           = [a\<lparr>ant_x := ant_x a + (79 / 20) * cos (fst (rng_uniform (sim_rng w) 0 (2 * pi))),
                ant_y := ant_y a + (79 / 20) * sin (fst (rng_uniform (sim_rng w) 0 (2 * pi)))\<rparr>,
              b\<lparr>ant_x := ant_x b - (79 / 20) * cos (fst (rng_uniform (sim_rng w) 0 (2 * pi))),
                ant_y := ant_y b - (79 / 20) * sin (fst (rng_uniform (sim_rng w) 0 (2 * pi)))\<rparr>]
         \<and> sim_rng (Colony_resolve_collisions w) = snd (rng_uniform (sim_rng w) 0 (2 * pi))"
proof -
  obtain angle g1 where u: "rng_uniform (sim_rng w) 0 (2 * pi) = (angle, g1)"
    by (cases "rng_uniform (sim_rng w) 0 (2 * pi)")
  show ?thesis
    by (simp add: Colony_resolve_collisions_def assms(1) collide_overlap [OF assms(2-7) u] u)
qed

lemma overlap_apart:
  "ant_distance
     (a\<lparr>ant_x := ant_x a + (79 / 20) * cos t, ant_y := ant_y a + (79 / 20) * sin t\<rparr>)
     (b\<lparr>ant_x := ant_x a - (79 / 20) * cos t, ant_y := ant_y a - (79 / 20) * sin t\<rparr>) = 79 / 10"
proof -
  have "cos t * cos t + sin t * sin t = 1"
    using sin_cos_squared_add2 [of t] by (simp add: power2_eq_square)
  then have e: "(79 / 10) * sqrt (cos t * cos t + sin t * sin t) = 79 / 10" by simp
  have sel:
    "ant_x (a\<lparr>ant_x := ant_x a + (79 / 20) * cos t, ant_y := ant_y a + (79 / 20) * sin t\<rparr>)
       = ant_x a + (79 / 20) * cos t"
    "ant_y (a\<lparr>ant_x := ant_x a + (79 / 20) * cos t, ant_y := ant_y a + (79 / 20) * sin t\<rparr>)
       = ant_y a + (79 / 20) * sin t"
    "ant_x (b\<lparr>ant_x := ant_x a - (79 / 20) * cos t, ant_y := ant_y a - (79 / 20) * sin t\<rparr>)
       = ant_x a - (79 / 20) * cos t"
    "ant_y (b\<lparr>ant_x := ant_x a - (79 / 20) * cos t, ant_y := ant_y a - (79 / 20) * sin t\<rparr>)
       = ant_y a - (79 / 20) * sin t"
    by simp_all
  show ?thesis
    unfolding ant_distance_def sel overlap_distance by (rule e)
qed

text \<open>
  C5 fails as stated: the two agents of \<open>world_c5\<close> end 7.9 apart, less than the collision
  distance 8.
\<close>

theorem zero_distance_counterexample:
  "ants (sim_colony world_c5) = [ant_Z, ant_Z] \<and>
   ant_distance (ants (sim_colony (Colony_resolve_collisions world_c5)) ! 0)
     (ants (sim_colony (Colony_resolve_collisions world_c5)) ! 1) = 79 / 10 \<and>
   \<not> 8 \<le> ant_distance (ants (sim_colony (Colony_resolve_collisions world_c5)) ! 0)
            (ants (sim_colony (Colony_resolve_collisions world_c5)) ! 1)"
proof -
  have h: "ants (sim_colony world_c5) = [ant_Z, ant_Z]" "ant_dx ant_Z = 0" "ant_dy ant_Z = 0"
    by (simp_all add: world_c5_def ant_Z_def)
  note r = overlap_result [OF h(1) refl refl h(2) h(3) h(2) h(3)]
  have "ant_distance (ants (sim_colony (Colony_resolve_collisions world_c5)) ! 0)
     (ants (sim_colony (Colony_resolve_collisions world_c5)) ! 1) = 79 / 10"
    using overlap_apart [of ant_Z _ ant_Z] by (simp add: r)
  then show ?thesis using h(1) by simp
qed

text \<open>
  C5, amended. For exactly two agents at the same point with zero velocity,
  \<^verbatim>\<open>resolve_collisions\<close> returns without an error: it draws one angle in \<open>[0, 2\<pi>)\<close>
  for the contact normal, takes 0.1 as the distance and moves each agent 3.95 along the
  normal in opposite directions, so that afterwards their distance is 7.9, which is
  8 - 0.1; both velocities stay zero.
\<close>

theorem zero_distance_collision:
  "rng_consts (sim_rng w) \<Longrightarrow> ants (sim_colony w) = [a, b] \<Longrightarrow>
   ant_x a = ant_x b \<Longrightarrow> ant_y a = ant_y b \<Longrightarrow>
   ant_dx a = 0 \<Longrightarrow> ant_dy a = 0 \<Longrightarrow> ant_dx b = 0 \<Longrightarrow> ant_dy b = 0 \<Longrightarrow>
     (\<exists>a1 b1. ants (sim_colony (Colony_resolve_collisions w)) = [a1, b1] \<and>
        ant_distance a1 b1 = 79 / 10 \<and>
        ant_dx a1 = 0 \<and> ant_dy a1 = 0 \<and> ant_dx b1 = 0 \<and> ant_dy b1 = 0 \<and>
        ant_x a1 = ant_x a + (79 / 20) * cos (fst (rng_uniform (sim_rng w) 0 (2 * pi))) \<and>
        ant_y a1 = ant_y a + (79 / 20) * sin (fst (rng_uniform (sim_rng w) 0 (2 * pi))) \<and>
        ant_x b1 = ant_x b - (79 / 20) * cos (fst (rng_uniform (sim_rng w) 0 (2 * pi))) \<and>
        ant_y b1 = ant_y b - (79 / 20) * sin (fst (rng_uniform (sim_rng w) 0 (2 * pi)))) \<and>
     0 \<le> fst (rng_uniform (sim_rng w) 0 (2 * pi)) \<and>
     fst (rng_uniform (sim_rng w) 0 (2 * pi)) < 2 * pi \<and>
     sim_rng (Colony_resolve_collisions w) = snd (rng_uniform (sim_rng w) 0 (2 * pi))"
proof -
  assume c: "rng_consts (sim_rng w)"
  assume a: "ants (sim_colony w) = [a, b]" "ant_x a = ant_x b" "ant_y a = ant_y b"
    "ant_dx a = 0" "ant_dy a = 0" "ant_dx b = 0" "ant_dy b = 0"
  note r = overlap_result [OF a]
  let ?t = "fst (rng_uniform (sim_rng w) 0 (2 * pi))"
  have "ant_distance
     (a\<lparr>ant_x := ant_x a + (79 / 20) * cos ?t, ant_y := ant_y a + (79 / 20) * sin ?t\<rparr>)
     (b\<lparr>ant_x := ant_x b - (79 / 20) * cos ?t, ant_y := ant_y b - (79 / 20) * sin ?t\<rparr>) = 79 / 10"
    using overlap_apart [of a ?t b] a(2,3) by simp
  moreover have "0 \<le> ?t \<and> ?t < 2 * pi"
    using rng_uniform_range [OF c, of 0 "2 * pi"] by simp
  ultimately show ?thesis using r a(4-7) by simp
qed

theorem zero_distance_collision_witness:
  "rng_consts (sim_rng world_c5) \<and>
   ants (sim_colony world_c5) = [ant_Z, ant_Z] \<and> ant_dx ant_Z = 0 \<and> ant_dy ant_Z = 0 \<and>
   (\<exists>a1 b1. ants (sim_colony (Colony_resolve_collisions world_c5)) = [a1, b1] \<and>
      ant_distance a1 b1 = 79 / 10 \<and> ant_dx a1 = 0 \<and> ant_dy b1 = 0) \<and>
   rng_state (sim_rng (Colony_resolve_collisions world_c5)) = 16807"
proof -
  have c: "rng_consts (sim_rng world_c5)"
    by (simp add: world_c5_def rng1_def ManualRNG_init_def rng_consts_def)
  have h: "ants (sim_colony world_c5) = [ant_Z, ant_Z]" "ant_dx ant_Z = 0" "ant_dy ant_Z = 0"
    by (simp_all add: world_c5_def ant_Z_def)
  have g: "rng_state (snd (rng_uniform (sim_rng world_c5) 0 (2 * pi))) = 16807"
    by (simp add: world_c5_def rng1_def ManualRNG_init_def rng_uniform_def rng_random_def)
  show ?thesis
    using zero_distance_collision [OF c h(1) refl refl h(2) h(3) h(2) h(3)] c h g by auto
qed

end
